theory Spec2Isabelle
  imports Complex_Main
begin

section \<open>Values and errors\<close>

text \<open>
  Custom properties of a Blender object (\<^verbatim>\<open>obj.items()\<close>, \<^verbatim>\<open>obj[key]\<close>) hold integers,
  floats, strings, booleans, arrays and property groups; an ID property never holds
  \<^verbatim>\<open>None\<close>. A Python value that may be \<^verbatim>\<open>None\<close> is a \<open>pval option\<close>. Floats are
  modelled by reals. A Python dict is an association list in insertion order with
  unique keys.
\<close>

datatype pval =
    PInt int
  | PFloat real
  | PStr string
  | PBool bool
  | PList "pval list"
  | PDict "(string \<times> pval) list"

type_synonym pdict = "(string \<times> pval) list"

datatype error =
    KeyError string
  | TypeError
  | ValueError
  | IndexError
  | AssertionError
  | Raised string

text \<open>Python truth value of a builtin value (\<^verbatim>\<open>bool(x)\<close>), and of a value or \<^verbatim>\<open>None\<close>.\<close>

fun truthy :: "pval \<Rightarrow> bool" where
  "truthy (PInt i) = (i \<noteq> 0)"
| "truthy (PFloat r) = (r \<noteq> 0)"
| "truthy (PStr s) = (s \<noteq> [])"
| "truthy (PBool b) = b"
| "truthy (PList xs) = (xs \<noteq> [])"
| "truthy (PDict d) = (d \<noteq> [])"

fun truthy_opt :: "pval option \<Rightarrow> bool" where
  "truthy_opt None = False"
| "truthy_opt (Some v) = truthy v"

section \<open>Dictionaries and strings\<close>

text \<open>\<^verbatim>\<open>d[k] = v\<close>: an existing key keeps its place, a new key goes to the end.\<close>

fun dict_set :: "('k \<times> 'v) list \<Rightarrow> 'k \<Rightarrow> 'v \<Rightarrow> ('k \<times> 'v) list" where
  "dict_set [] k v = [(k, v)]"
| "dict_set ((k', v') # d) k v =
     (if k' = k then (k, v) # d else (k', v') # dict_set d k v)"

text \<open>\<^verbatim>\<open>d.get(k)\<close>, with \<open>None\<close> for a missing key.\<close>

definition dict_get :: "('k \<times> 'v) list \<Rightarrow> 'k \<Rightarrow> 'v option" where
  "dict_get d k = map_of d k"

definition dict_keys :: "('k \<times> 'v) list \<Rightarrow> 'k list" where
  "dict_keys d = map fst d"

text \<open>\<^verbatim>\<open>"/" in k\<close>.\<close>

definition has_sep :: "string \<Rightarrow> bool" where
  "has_sep k = (CHR ''/'' \<in> set k)"

text \<open>\<^verbatim>\<open>k.split("/", 1)[0]\<close> and \<^verbatim>\<open>k.split("/", 1)[1]\<close>, for a key that contains the
  separator.\<close>

definition key_head :: "string \<Rightarrow> string" where
  "key_head k = takeWhile (\<lambda>c. c \<noteq> CHR ''/'') k"

definition key_tail :: "string \<Rightarrow> string" where
  "key_tail k = tl (dropWhile (\<lambda>c. c \<noteq> CHR ''/'') k)"

text \<open>\<^verbatim>\<open>s.startswith(p)\<close>.\<close>

definition startswith :: "string \<Rightarrow> string \<Rightarrow> bool" where
  "startswith s p = (take (length p) s = p)"

lemma key_tail_shorter: "has_sep k \<Longrightarrow> length (key_tail k) < length k"
proof -
  assume "has_sep k"
  then have ne: "dropWhile (\<lambda>c. c \<noteq> CHR ''/'') k \<noteq> []"
    by (simp add: has_sep_def)
  have "length (dropWhile (\<lambda>c. c \<noteq> CHR ''/'') k) \<le> length k"
    by (rule length_dropWhile_le)
  with ne show ?thesis
    by (cases "dropWhile (\<lambda>c. c \<noteq> CHR ''/'') k") (simp_all add: key_tail_def)
qed

section \<open>deriveAnnotation: the nested function deepen\_dict\<close>

text \<open>
  \<^verbatim>\<open>
  def deepen_dict(input_dict):
      out = {}
      for k, v in input_dict.items():
          if "/" in k:
              out[k.split("/",1)[0]] = deepen_dict({k.split("/", 1)[1]: v})
          else:
              out[k] = v
      return out
  \<close>
  \<open>deepen_loop items out\<close> is the \<^verbatim>\<open>for\<close> loop over the remaining items with the
  current \<^verbatim>\<open>out\<close>; the recursive call is the loop on the one-entry dict, started
  from an empty \<^verbatim>\<open>out\<close>.
\<close>

function deepen_loop :: "pdict \<Rightarrow> pdict \<Rightarrow> pdict" where
  "deepen_loop [] out = out"
| "deepen_loop ((k, v) # items) out =
     (if has_sep k
      then deepen_loop items
             (dict_set out (key_head k) (PDict (deepen_loop [(key_tail k, v)] [])))
      else deepen_loop items (dict_set out k v))"
  by pat_completeness auto
termination
  by (relation "measure (\<lambda>(items, out). sum_list (map (\<lambda>(k, v). Suc (length k)) items))")
     (auto dest: key_tail_shorter simp: trans_less_add1)

definition deepen_dict :: "pdict \<Rightarrow> pdict" where
  "deepen_dict input_dict = deepen_loop input_dict []"

section \<open>Poses\<close>

text \<open>
  The class \<^verbatim>\<open>representation.Pose\<close> (module \<^verbatim>\<open>phobos.io.representation\<close>) is not among the
  sources. The poses here follow the spec's data model: a pose is a rigid transform, a
  position 3-vector and a rotation, with composition (\<^verbatim>\<open>dot\<close>) and inversion (\<^verbatim>\<open>inv\<close>).
  The rotation is kept as its 3x3 matrix, by rows; floats are reals. First the linear
  algebra of 3-vectors and 3x3 matrices.
\<close>

type_synonym vec3 = "real \<times> real \<times> real"
type_synonym mat3 = "vec3 \<times> vec3 \<times> vec3"

fun vadd :: "vec3 \<Rightarrow> vec3 \<Rightarrow> vec3" where
  "vadd (a, b, c) (x, y, z) = (a + x, b + y, c + z)"

fun vneg :: "vec3 \<Rightarrow> vec3" where
  "vneg (a, b, c) = (- a, - b, - c)"

fun vdot :: "vec3 \<Rightarrow> vec3 \<Rightarrow> real" where
  "vdot (a, b, c) (x, y, z) = a * x + b * y + c * z"

fun mat_vec :: "mat3 \<Rightarrow> vec3 \<Rightarrow> vec3" where
  "mat_vec (r1, r2, r3) v = (vdot r1 v, vdot r2 v, vdot r3 v)"

fun transpose3 :: "mat3 \<Rightarrow> mat3" where
  "transpose3 ((a, b, c), (d, e, f), (g, h, i)) = ((a, d, g), (b, e, h), (c, f, i))"

fun mat_mul :: "mat3 \<Rightarrow> mat3 \<Rightarrow> mat3" where
  "mat_mul (r1, r2, r3) m =
     (mat_vec (transpose3 m) r1, mat_vec (transpose3 m) r2, mat_vec (transpose3 m) r3)"

definition mat_id :: mat3 where
  "mat_id = ((1, 0, 0), (0, 1, 0), (0, 0, 1))"

fun det3 :: "mat3 \<Rightarrow> real" where
  "det3 ((a, b, c), (d, e, f), (g, h, i)) =
     a * (e * i - f * h) - b * (d * i - f * g) + c * (d * h - e * g)"

text \<open>The inverse of a 3x3 matrix: the adjugate over the determinant. A singular
  matrix is outside the spec ("a caller precondition violation").\<close>

fun mat_inv :: "mat3 \<Rightarrow> mat3" where
  "mat_inv ((a, b, c), (d, e, f), (g, h, i)) =
     (let dt = det3 ((a, b, c), (d, e, f), (g, h, i)) in
      (((e * i - f * h) / dt, (c * h - b * i) / dt, (b * f - c * e) / dt),
       ((f * g - d * i) / dt, (a * i - c * g) / dt, (c * d - a * f) / dt),
       ((d * h - e * g) / dt, (b * g - a * h) / dt, (a * e - b * d) / dt)))"

text \<open>Modelled from the spec: the class \<^verbatim>\<open>representation.Pose\<close>, a position and a
  rotation.\<close>

record pose =
  position :: vec3
  rotation :: mat3

text \<open>Modelled from the spec: \<^verbatim>\<open>representation.Pose()\<close>, the pose built without arguments,
  which the spec takes as the identity transform.\<close>

definition pose_identity :: pose where
  "pose_identity = \<lparr>position = (0, 0, 0), rotation = mat_id\<rparr>"

text \<open>Modelled from the spec: \<^verbatim>\<open>Pose.dot\<close>, the composition of two rigid transforms
  (\<open>pose_dot a b\<close> is "first \<open>b\<close>, then \<open>a\<close>", the product of the homogeneous matrices).\<close>

definition pose_dot :: "pose \<Rightarrow> pose \<Rightarrow> pose" where
  "pose_dot a b =
     \<lparr>position = vadd (position a) (mat_vec (rotation a) (position b)),
      rotation = mat_mul (rotation a) (rotation b)\<rparr>"

text \<open>Modelled from the spec: \<^verbatim>\<open>Pose.inv\<close>, the inverse rigid transform.\<close>

definition pose_inv :: "pose \<Rightarrow> pose" where
  "pose_inv a =
     \<lparr>position = vneg (mat_vec (mat_inv (rotation a)) (position a)),
      rotation = mat_inv (rotation a)\<rparr>"

text \<open>
  A world transform of the host (\<^verbatim>\<open>obj.matrix_world\<close>, a 4x4 homogeneous matrix) is its
  3x3 block and its translation column; the last row is \<open>0 0 0 1\<close>.
\<close>

record matrix4 =
  block3 :: mat3
  translation :: vec3

text \<open>Modelled from the spec: \<^verbatim>\<open>Pose.from_matrix\<close>, the pose with the position and the
  rotation of a homogeneous matrix.\<close>

definition from_matrix :: "matrix4 \<Rightarrow> pose" where
  "from_matrix T = \<lparr>position = translation T, rotation = block3 T\<rparr>"

section \<open>Scene objects and the host\<close>

text \<open>
  A Blender object, with the attributes the derive functions read: its name, its
  \<^verbatim>\<open>phobostype\<close>, its custom properties in the order of \<^verbatim>\<open>obj.items()\<close>, its world matrix,
  its dimensions, the name of its mesh datablock (\<^verbatim>\<open>obj.data\<close>), the
  \<^verbatim>\<open>collision_collections\<close> of its rigid body (\<open>None\<close> when \<^verbatim>\<open>obj.rigid_body\<close> has no such
  attribute) and its children. Object names are unique in a Blender file, so equality of
  objects is equality of these values.
\<close>

datatype obj = Obj
  (name: string)
  (phobostype: string)
  (obj_items: pdict)
  (matrix_world: matrix4)
  (dimensions: vec3)
  (data: string)
  (collision_collections: "bool list option")
  (children: "obj list")

text \<open>
  What the functions call outside the sources: Blender's \<^verbatim>\<open>Matrix.normalized()\<close> and
  \<^verbatim>\<open>Matrix.to_scale()\<close>, the copy of a mesh datablock, the objects of the scene
  (\<^verbatim>\<open>bpy.context.scene.objects\<close>), \<^verbatim>\<open>sUtils.getEffectiveParent\<close>, \<^verbatim>\<open>sUtils.getChildren\<close>,
  \<^verbatim>\<open>inertiamodel.fuse_inertia_data\<close> and \<^verbatim>\<open>inertiamodel.inertiaMatrixToList\<close>, and the
  key lists of \<^verbatim>\<open>reserved_keys\<close>. They are parameters of the model; the values that
  \<^verbatim>\<open>fuse_inertia_data\<close> returns are taken as builtin Python values or \<^verbatim>\<open>None\<close>. The
  function \<^verbatim>\<open>deriveMaterial\<close> walks the shader nodes of \<^verbatim>\<open>obj.active_material\<close>, host data
  that is not modelled: what it returns for an object is a parameter as well. Logging
  has no effect on any result and is left out, and with it the \<^verbatim>\<open>logging\<close> arguments.
  The \<^verbatim>\<open>@validate\<close> decorators are outside the sources too: each decorated function is
  modelled by its body.
\<close>

text \<open>A derived material stands for the \<^verbatim>\<open>representation.Material\<close> of that name.\<close>

datatype material = Material string

record host =
  getEffectiveParent :: "obj \<Rightarrow> obj option"
  normalized :: "matrix4 \<Rightarrow> matrix4"
  to_scale :: "matrix4 \<Rightarrow> vec3"
  mesh_copy :: "string \<Rightarrow> string"
  scene_objects :: "obj list"
  getChildren :: "obj \<Rightarrow> string list \<Rightarrow> obj list"
  deriveMaterial :: "obj \<Rightarrow> error + material option"
  fuse_inertia_data :: "obj list \<Rightarrow> error + (pval option \<times> pval option \<times> pval option)"
  inertiaMatrixToList :: "pval option \<Rightarrow> error + pval list"
  VISCOL_KEYS :: "string list"
  INTERNAL_KEYS :: "string list"
  JOINT_KEYS :: "string list"
  LINK_KEYS :: "string list"

section \<open>deriveObjectPose\<close>

text \<open>
  \<^verbatim>\<open>
  def deriveObjectPose(obj, effectiveparent=None, logging=True):
      if effectiveparent is None:
          effectiveparent = sUtils.getEffectiveParent(obj, ignore_selection=True, include_hidden=True)
      if effectiveparent is not None:
          w2p = representation.Pose.from_matrix(effectiveparent.matrix_world.normalized())
      else:
          w2p = representation.Pose()
      w2o = representation.Pose.from_matrix(obj.matrix_world.normalized())
      p2o = w2p.inv().dot(w2o)
      return p2o
  \<close>
\<close>

definition deriveObjectPose :: "('z) host_scheme \<Rightarrow> obj \<Rightarrow> obj option \<Rightarrow> pose" where
  "deriveObjectPose h ob effectiveparent =
     (let effectiveparent =
            (case effectiveparent of None \<Rightarrow> getEffectiveParent h ob | Some p \<Rightarrow> Some p);
          w2p = (case effectiveparent of
                   Some p \<Rightarrow> from_matrix (normalized h (matrix_world p))
                 | None \<Rightarrow> pose_identity);
          w2o = from_matrix (normalized h (matrix_world ob));
          p2o = pose_dot (pose_inv w2p) w2o
      in p2o)"

section \<open>The annotation loop\<close>

text \<open>
  The loop that groups the remaining custom properties, as it stands in deriveCollision
  (and, with other conditions, in deriveVisual, deriveInertial, deriveLink, deriveJoint and
  deriveInterface):
  \<^verbatim>\<open>
  annotations = {}
  for k, v in obj.items():
      if k not in reserved_keys.VISCOL_KEYS+reserved_keys.INTERNAL_KEYS:
          if "/" not in k:
              annotations[k] = v
          else:
              k1, k2 = k.split("/", 1)
              if k1 not in annotations.keys():
                  annotations[k1] = {}
              annotations[k1][k2] = v
  \<close>
  \<open>store_annotation\<close> is the body under the outer condition. The assignment
  \<^verbatim>\<open>annotations[k1][k2] = v\<close> succeeds when \<^verbatim>\<open>annotations[k1]\<close> is a mapping, the one just
  created or a property group stored earlier under the key \<^verbatim>\<open>k1\<close>; on a number, a string,
  a boolean or an array it raises TypeError.
\<close>

definition store_annotation :: "pdict \<Rightarrow> string \<Rightarrow> pval \<Rightarrow> error + pdict" where
  "store_annotation annotations k v =
     (if \<not> has_sep k then Inr (dict_set annotations k v)
      else
        let k1 = key_head k; k2 = key_tail k;
            annotations = (if k1 \<notin> set (dict_keys annotations)
                           then dict_set annotations k1 (PDict []) else annotations)
        in (case dict_get annotations k1 of
              Some (PDict d) \<Rightarrow> Inr (dict_set annotations k1 (PDict (dict_set d k2 v)))
            | _ \<Rightarrow> Inl TypeError))"

text \<open>
  The loop itself: \<open>keep\<close> is the outer condition on the key and \<open>rename\<close> the rewriting
  of a kept key before it is stored (the identity, except in deriveLink and deriveJoint).
\<close>

fun annotation_loop ::
  "(string \<Rightarrow> bool) \<Rightarrow> (string \<Rightarrow> string) \<Rightarrow> pdict \<Rightarrow> pdict \<Rightarrow> error + pdict" where
  "annotation_loop keep rename [] annotations = Inr annotations"
| "annotation_loop keep rename ((k, v) # rest) annotations =
     (if keep k
      then (case store_annotation annotations (rename k) v of
              Inl e \<Rightarrow> Inl e
            | Inr annotations' \<Rightarrow> annotation_loop keep rename rest annotations')
      else annotation_loop keep rename rest annotations)"

text \<open>The loop with the condition \<^verbatim>\<open>k not in excluded\<close> and no rewriting, from the empty
  dict: deriveCollision, deriveVisual, deriveInertial and deriveInterface.\<close>

definition group_annotations :: "string list \<Rightarrow> pdict \<Rightarrow> error + pdict" where
  "group_annotations excluded its =
     annotation_loop (\<lambda>k. k \<notin> set excluded) (\<lambda>k. k) its []"

text \<open>\<^verbatim>\<open>k.replace(old, "")\<close>: every occurrence of \<open>old\<close>, from the left, is removed.\<close>

function remove_all :: "string \<Rightarrow> string \<Rightarrow> string" where
  "remove_all old [] = []"
| "remove_all old (c # cs) =
     (if old \<noteq> [] \<and> startswith (c # cs) old
      then remove_all old (drop (length old) (c # cs))
      else c # remove_all old cs)"
  by pat_completeness auto
termination
  by (relation "measure (\<lambda>(old, s). length s)") auto

text \<open>
  A call \<^verbatim>\<open>f(name=..., **annotations)\<close> raises TypeError when \<^verbatim>\<open>annotations\<close> has a key
  that is also given as a keyword.
\<close>

definition kwargs_clash :: "string list \<Rightarrow> pdict \<Rightarrow> bool" where
  "kwargs_clash keywords annotations = (\<exists>k \<in> set (dict_keys annotations). k \<in> set keywords)"

text \<open>The results of a list of calls, up to the first one that raises.\<close>

fun sequence_err :: "(error + 'a) list \<Rightarrow> error + 'a list" where
  "sequence_err [] = Inr []"
| "sequence_err (r # rs) =
     (case r of
        Inl e \<Rightarrow> Inl e
      | Inr x \<Rightarrow> (case sequence_err rs of Inl e \<Rightarrow> Inl e | Inr xs \<Rightarrow> Inr (x # xs)))"

section \<open>deriveGeometry and deriveCollision\<close>

text \<open>
  The classes of \<^verbatim>\<open>representation\<close> are not among the sources: a derived record holds
  the arguments its constructor is called with. A geometry is \<open>Box size\<close>,
  \<open>Cylinder radius length\<close>, \<open>Sphere radius\<close> or \<open>Mesh scale mesh meshname\<close>.
\<close>

datatype geometry =
    Box vec3
  | Cylinder real real
  | Sphere real
  | Mesh vec3 string string

definition deriveGeometry :: "('z) host_scheme \<Rightarrow> obj \<Rightarrow> bool \<Rightarrow> error + geometry" where
  "deriveGeometry h ob duplicate_mesh =
     (case dict_get (obj_items ob) ''geometry/type'' of
        None \<Rightarrow> Inl (KeyError ''geometry/type'')
      | Some gtype \<Rightarrow>
          if gtype = PStr ''box'' then Inr (Box (dimensions ob))
          else if gtype = PStr ''cylinder''
          then Inr (Cylinder (fst (dimensions ob) / 2) (snd (snd (dimensions ob))))
          else if gtype = PStr ''sphere'' then Inr (Sphere (fst (dimensions ob) / 2))
          else if gtype = PStr ''mesh''
          then (let blender_mesh = (if duplicate_mesh then mesh_copy h (data ob) else data ob)
                in Inr (Mesh (to_scale h (matrix_world ob)) blender_mesh blender_mesh))
          else Inl ValueError)"

text \<open>
  \<^verbatim>\<open>int(s, 2)\<close> for a string of the characters \<^verbatim>\<open>0\<close> and \<^verbatim>\<open>1\<close>, the only strings
  deriveCollision builds: the empty string raises ValueError.
\<close>

fun bin_digits :: "string \<Rightarrow> int \<Rightarrow> error + int" where
  "bin_digits [] acc = Inr acc"
| "bin_digits (c # cs) acc =
     (if c = CHR ''0'' then bin_digits cs (2 * acc)
      else if c = CHR ''1'' then bin_digits cs (2 * acc + 1)
      else Inl ValueError)"

definition int_base2 :: "string \<Rightarrow> error + int" where
  "int_base2 s = (if s = [] then Inl ValueError else bin_digits s 0)"

text \<open>
  \<^verbatim>\<open>
  bitmask = None
  # the bitmask is cut to length = 16 and reverted for int parsing
  if hasattr(obj.rigid_body, "collision_collections"):
      bitmask = int(
          ''.join(['1' if group else '0' for group in obj.rigid_body.collision_collections[:16]])[::-1],
          2,
      )
  \<close>
  The loop over \<^verbatim>\<open>collision_collections[16:]\<close> that follows only logs a warning.
\<close>

definition collision_bitmask :: "obj \<Rightarrow> error + int option" where
  "collision_bitmask ob =
     (case collision_collections ob of
        None \<Rightarrow> Inr None
      | Some groups \<Rightarrow>
          (case int_base2 (rev (map (\<lambda>group. if group then CHR ''1'' else CHR ''0'')
                                   (take 16 groups))) of
             Inl e \<Rightarrow> Inl e
           | Inr n \<Rightarrow> Inr (Some n)))"

datatype collision = Collision
  (c_name: string)
  (c_geometry: geometry)
  (c_origin: pose)
  (c_bitmask: "int option")
  (c_primitives: "collision list")
  (c_annotations: pdict)

text \<open>\<^verbatim>\<open>getattr(child, "phobostype", None) == "collision" and
  child.get("geometry/type", None) in ["box", "sphere", "cylinder"]\<close>\<close>

definition is_primitive :: "obj \<Rightarrow> bool" where
  "is_primitive child =
     (phobostype child = ''collision'' \<and>
      dict_get (obj_items child) ''geometry/type''
        \<in> {Some (PStr ''box''), Some (PStr ''sphere''), Some (PStr ''cylinder'')})"

lemma size_child: "child \<in> set (children ob) \<Longrightarrow> size child < size ob"
  by (cases ob) (auto simp: less_Suc_eq_le size_list_estimation')

text \<open>
  \<^verbatim>\<open>
  def deriveCollision(obj, linkobj=None, duplicate_mesh=False,  **kwargs):
      ...bitmask...
      primitives = []
      if obj.children:
          for child in obj.children:
              if getattr(child, "phobostype", None) == "collision" and child.get("geometry/type", None) in ["box", "sphere", "cylinder"]:
                  primitives.append(deriveCollision(child, linkobj=linkobj))
      ...annotations...
      return representation.Collision(
          name=obj.name,
          geometry=deriveGeometry(obj, duplicate_mesh),
          origin=deriveObjectPose(obj, effectiveparent=linkobj),
          bitmask=bitmask,
          primitives=primitives,
          **annotations
      )
  \<close>
\<close>

function deriveCollision ::
  "('z) host_scheme \<Rightarrow> obj \<Rightarrow> obj option \<Rightarrow> bool \<Rightarrow> error + collision" where
  "deriveCollision h ob linkobj duplicate_mesh =
     (case collision_bitmask ob of
        Inl e \<Rightarrow> Inl e
      | Inr bitmask \<Rightarrow>
     (case sequence_err (map (\<lambda>child. deriveCollision h child linkobj False)
                             (filter is_primitive (children ob))) of
        Inl e \<Rightarrow> Inl e
      | Inr primitives \<Rightarrow>
     (case group_annotations (VISCOL_KEYS h @ INTERNAL_KEYS h) (obj_items ob) of
        Inl e \<Rightarrow> Inl e
      | Inr annotations \<Rightarrow>
     (case deriveGeometry h ob duplicate_mesh of
        Inl e \<Rightarrow> Inl e
      | Inr geometry \<Rightarrow>
          if kwargs_clash [''name'', ''geometry'', ''origin'', ''bitmask'', ''primitives'']
               annotations
          then Inl TypeError
          else Inr (Collision (name ob) geometry (deriveObjectPose h ob linkobj)
                      bitmask primitives annotations)))))"
  by pat_completeness auto
termination
  by (relation "measure (\<lambda>(h, ob, linkobj, duplicate_mesh). size ob)")
     (auto simp: size_child)

declare deriveCollision.simps [simp del]

section \<open>deriveVisual and deriveInertial\<close>

datatype visual = Visual
  (v_name: string)
  (v_geometry: geometry)
  (v_origin: pose)
  (v_material: "material option")
  (v_annotations: pdict)

text \<open>
  \<^verbatim>\<open>
  def deriveVisual(obj, logging=True, duplicate_mesh=False, **kwargs):
      material = deriveMaterial(obj.active_material, logging=logging)
      ...annotations, with VISCOL_KEYS+INTERNAL_KEYS...
      return representation.Visual(
          name=obj.name,
          geometry=deriveGeometry(obj, duplicate_mesh),
          origin=deriveObjectPose(obj),
          material=material,
          **annotations
      )
  \<close>
\<close>

definition deriveVisual :: "('z) host_scheme \<Rightarrow> obj \<Rightarrow> bool \<Rightarrow> error + visual" where
  "deriveVisual h ob duplicate_mesh =
     (case deriveMaterial h ob of
        Inl e \<Rightarrow> Inl e
      | Inr material \<Rightarrow>
     (case group_annotations (VISCOL_KEYS h @ INTERNAL_KEYS h) (obj_items ob) of
        Inl e \<Rightarrow> Inl e
      | Inr annotations \<Rightarrow>
     (case deriveGeometry h ob duplicate_mesh of
        Inl e \<Rightarrow> Inl e
      | Inr geometry \<Rightarrow>
          if kwargs_clash [''name'', ''geometry'', ''origin'', ''material''] annotations
          then Inl TypeError
          else Inr (Visual (name ob) geometry (deriveObjectPose h ob None)
                      material annotations))))"

text \<open>\<^verbatim>\<open>x[0]\<close> and the unpacking \<^verbatim>\<open>*x\<close> of a property value. An array is a \<open>PList\<close>;
  a property group takes only strings as keys.\<close>

fun subscript0 :: "pval \<Rightarrow> error + pval" where
  "subscript0 (PList []) = Inl IndexError"
| "subscript0 (PList (x # xs)) = Inr x"
| "subscript0 (PStr []) = Inl IndexError"
| "subscript0 (PStr (c # cs)) = Inr (PStr [c])"
| "subscript0 v = Inl TypeError"

fun unpack :: "pval \<Rightarrow> error + pval list" where
  "unpack (PList xs) = Inr xs"
| "unpack (PStr s) = Inr (map (\<lambda>c. PStr [c]) s)"
| "unpack (PDict d) = Inr (map (\<lambda>k. PStr k) (dict_keys d))"
| "unpack v = Inl TypeError"

text \<open>
  \<^verbatim>\<open>type(x) in [tuple, list]\<close>, for a value \<open>x\<close> read from a Blender object. Such a value
  is a number, a string, a boolean, an \<^verbatim>\<open>IDPropertyArray\<close> or an \<^verbatim>\<open>IDPropertyGroup\<close>, and so
  is an element of an array (an array inside an array is an \<^verbatim>\<open>IDPropertyArray\<close> again):
  its type is never the Python \<^verbatim>\<open>tuple\<close> or \<^verbatim>\<open>list\<close>.
\<close>

definition is_tuple_or_list :: "pval \<Rightarrow> bool" where
  "is_tuple_or_list x = False"

datatype inertia = Inertia "pval list"

datatype inertial = Inertial
  (i_mass: "pval option")
  (i_inertia: "inertia option")
  (i_origin: pose)
  (i_annotations: pdict)

text \<open>
  \<^verbatim>\<open>
  if "inertia" in obj:
      inertia = representation.Inertia(*(obj["inertia"][0] if type(obj["inertia"][0]) in [tuple, list] else obj["inertia"]))
  else:
      inertia = None
  \<close>
\<close>

definition inertial_inertia :: "obj \<Rightarrow> error + inertia option" where
  "inertial_inertia ob =
     (case dict_get (obj_items ob) ''inertia'' of
        None \<Rightarrow> Inr None
      | Some iv \<Rightarrow>
          (case subscript0 iv of
             Inl e \<Rightarrow> Inl e
           | Inr first \<Rightarrow>
               (case unpack (if is_tuple_or_list first then first else iv) of
                  Inl e \<Rightarrow> Inl e
                | Inr args \<Rightarrow> Inr (Some (Inertia args)))))"

text \<open>
  \<^verbatim>\<open>
  def deriveInertial(obj, logging=True, **kwargs):
      ...inertia...
      ...annotations, with the condition k not in ["mass", "inertia", "origin"]...
      return representation.Inertial(
          mass=obj["mass"] if "mass" in obj else 0.0,
          inertia=inertia,
          origin=deriveObjectPose(obj),
          **annotations
      )
  \<close>
\<close>

definition deriveInertial :: "('z) host_scheme \<Rightarrow> obj \<Rightarrow> error + inertial" where
  "deriveInertial h ob =
     (case inertial_inertia ob of
        Inl e \<Rightarrow> Inl e
      | Inr inertia \<Rightarrow>
     (case group_annotations [''mass'', ''inertia'', ''origin''] (obj_items ob) of
        Inl e \<Rightarrow> Inl e
      | Inr annotations \<Rightarrow>
          if kwargs_clash [''mass'', ''inertia'', ''origin''] annotations
          then Inl TypeError
          else Inr (Inertial
                      (case dict_get (obj_items ob) ''mass'' of
                         Some m \<Rightarrow> Some m
                       | None \<Rightarrow> Some (PFloat 0))
                      inertia (deriveObjectPose h ob None) annotations)))"

section \<open>deriveLink\<close>

datatype link = Link
  (l_name: string)
  (l_visuals: "visual list")
  (l_collisions: "collision list")
  (l_inertial: "inertial option")
  (l_annotations: pdict)

text \<open>
  \<^verbatim>\<open>
  for part in [item for item in objectlist if item.phobostype in ['visual', 'collision', 'approxsphere']]:
      effectiveparent = sUtils.getEffectiveParent(part, ignore_selection=True, include_hidden=True)
      if effectiveparent == obj:
          if part.phobostype == "visual":
              visuals.append(deriveVisual(part, logging=logging))
          elif part.phobostype == "collision":
              collisions.append(deriveCollision(part, logging=logging))
  \<close>
  \<open>link_parts\<close> is the loop over the remaining parts, with the two lists built so far.
\<close>

fun link_parts ::
  "('z) host_scheme \<Rightarrow> obj \<Rightarrow> obj list \<Rightarrow> visual list \<Rightarrow> collision list
     \<Rightarrow> error + (visual list \<times> collision list)" where
  "link_parts h ob [] visuals collisions = Inr (visuals, collisions)"
| "link_parts h ob (part # parts) visuals collisions =
     (if getEffectiveParent h part = Some ob
      then
        if phobostype part = ''visual''
        then (case deriveVisual h part False of
                Inl e \<Rightarrow> Inl e
              | Inr v \<Rightarrow> link_parts h ob parts (visuals @ [v]) collisions)
        else if phobostype part = ''collision''
        then (case deriveCollision h part None False of
                Inl e \<Rightarrow> Inl e
              | Inr c \<Rightarrow> link_parts h ob parts visuals (collisions @ [c]))
        else link_parts h ob parts visuals collisions
      else link_parts h ob parts visuals collisions)"

text \<open>\<^verbatim>\<open>list(x)\<close> of a value or \<^verbatim>\<open>None\<close>.\<close>

fun list_of :: "pval option \<Rightarrow> error + pval list" where
  "list_of None = Inl TypeError"
| "list_of (Some v) = unpack v"

text \<open>
  Modelled from the spec: the pose built by \<^verbatim>\<open>representation.Pose(xyz=...)\<close>, a position
  with the identity rotation. Three numbers are expected; anything else is an error of
  the constructor.
\<close>

fun number_of :: "pval \<Rightarrow> real option" where
  "number_of (PFloat r) = Some r"
| "number_of (PInt i) = Some (of_int i)"
| "number_of v = None"

definition pose_xyz :: "pval list \<Rightarrow> error + pose" where
  "pose_xyz xyz =
     (case map number_of xyz of
        [Some x, Some y, Some z] \<Rightarrow> Inr \<lparr>position = (x, y, z), rotation = mat_id\<rparr>
      | _ \<Rightarrow> Inl (Raised ''Pose''))"

text \<open>
  \<^verbatim>\<open>
  # gather the inertials for fusing the link inertia
  inertials = [inert for inert in obj.children if inert.phobostype == 'inertial']

  mass = None
  com = None
  inertia = None
  if len(inertials) > 0:
      # get inertia data
      mass, com, inertia = inertiamodel.fuse_inertia_data(inertials)

  inertial = None
  if not any([mass, com, inertia]):
      if logging:
          log("No inertia information for link object " + obj.name + ".", 'DEBUG')
  else:
      # add inertia to link
      inertial = representation.Inertial(
          mass=mass,
          inertia=representation.Inertia(*inertiamodel.inertiaMatrixToList(inertia)),
          origin=representation.Pose(xyz=list(com))
      )
  \<close>
\<close>

definition link_inertial :: "('z) host_scheme \<Rightarrow> obj \<Rightarrow> error + inertial option" where
  "link_inertial h ob =
     (let inertials = filter (\<lambda>inert. phobostype inert = ''inertial'') (children ob) in
      case (if length inertials > 0 then fuse_inertia_data h inertials
            else Inr (None, None, None)) of
        Inl e \<Rightarrow> Inl e
      | Inr (mass, com, inertia) \<Rightarrow>
          if \<not> (truthy_opt mass \<or> truthy_opt com \<or> truthy_opt inertia) then Inr None
          else
            (case inertiaMatrixToList h inertia of
               Inl e \<Rightarrow> Inl e
             | Inr args \<Rightarrow>
            (case list_of com of
               Inl e \<Rightarrow> Inl e
             | Inr xyz \<Rightarrow>
            (case pose_xyz xyz of
               Inl e \<Rightarrow> Inl e
             | Inr origin \<Rightarrow>
                 Inr (Some (Inertial mass (Some (Inertia args)) origin []))))))"

text \<open>
  \<^verbatim>\<open>
  annotations = {}
  for k, v in obj.items():
      if k not in reserved_keys.JOINT_KEYS+reserved_keys.LINK_KEYS+reserved_keys.INTERNAL_KEYS and not k.startswith("joint/"):
          k = k.replace("link/", "")
          ...as in deriveCollision...
  \<close>
\<close>

definition link_annotations :: "('z) host_scheme \<Rightarrow> obj \<Rightarrow> error + pdict" where
  "link_annotations h ob =
     annotation_loop
       (\<lambda>k. k \<notin> set (JOINT_KEYS h @ LINK_KEYS h @ INTERNAL_KEYS h) \<and> \<not> startswith k ''joint/'')
       (\<lambda>k. remove_all ''link/'' k)
       (obj_items ob) []"

text \<open>
  \<^verbatim>\<open>
  def deriveLink(obj, objectlist=None, logging=True, errors=None):
      # use scene objects if no objects are defined
      if objectlist is None:
          objectlist = list(bpy.context.scene.objects)
      ...visuals and collisions...
      ...inertial...
      ...annotations...
      return representation.Link(
          name=obj.name,
          visuals=visuals,
          collisions=collisions,
          inertial=inertial,
          # [TODO v2.1.0] Add KCCD support
          kccd_hull=None,
          **annotations
      )
  \<close>
\<close>

definition deriveLink :: "('z) host_scheme \<Rightarrow> obj \<Rightarrow> obj list option \<Rightarrow> error + link" where
  "deriveLink h ob objectlist =
     (let objectlist = (case objectlist of None \<Rightarrow> scene_objects h | Some l \<Rightarrow> l) in
      case link_parts h ob
             (filter (\<lambda>item. phobostype item \<in> {''visual'', ''collision'', ''approxsphere''})
                     objectlist) [] [] of
        Inl e \<Rightarrow> Inl e
      | Inr (visuals, collisions) \<Rightarrow>
     (case link_inertial h ob of
        Inl e \<Rightarrow> Inl e
      | Inr inertial \<Rightarrow>
     (case link_annotations h ob of
        Inl e \<Rightarrow> Inl e
      | Inr annotations \<Rightarrow>
          if kwargs_clash [''name'', ''visuals'', ''collisions'', ''inertial'', ''kccd_hull'']
               annotations
          then Inl TypeError
          else Inr (Link (name ob) visuals collisions inertial annotations))))"

section \<open>deriveJoint\<close>

datatype joint_limit = JointLimit
  (effort: "pval option") (velocity: "pval option") (lower: "pval option") (upper: "pval option")

datatype joint_dynamics = JointDynamics
  (damping: "pval option") (friction: "pval option")
  (spring_stiffness: "pval option") (spring_reference: "pval option")

datatype joint_mimic = JointMimic (mimic_joint: pval) (multiplier: pval) (offset: pval)

datatype joint = Joint
  (j_name: pval)
  (j_parent: string)
  (j_child: string)
  (joint_type: pval)
  (axis: "pval option")
  (j_origin: pose)
  (limit: "joint_limit option")
  (dynamics: "joint_dynamics option")
  (mimic: "joint_mimic option")
  (motor: "string option")

text \<open>\<^verbatim>\<open>obj[k]\<close>, which raises KeyError for a missing property.\<close>

definition getitem :: "obj \<Rightarrow> string \<Rightarrow> error + pval" where
  "getitem ob k = (case dict_get (obj_items ob) k of None \<Rightarrow> Inl (KeyError k) | Some v \<Rightarrow> Inr v)"

text \<open>
  \<^verbatim>\<open>
  mimic=representation.JointMimic(
      joint=obj["joint/mimic/joint"],
      multiplier=obj["joint/mimic/multiplier"],
      offset=obj["joint/mimic/offset"]
  ) if "joint/mimic/joint" in obj.keys() else None,
  \<close>
\<close>

definition joint_mimic_of :: "obj \<Rightarrow> error + joint_mimic option" where
  "joint_mimic_of ob =
     (case dict_get (obj_items ob) ''joint/mimic/joint'' of
        None \<Rightarrow> Inr None
      | Some j \<Rightarrow>
          (case getitem ob ''joint/mimic/multiplier'' of
             Inl e \<Rightarrow> Inl e
           | Inr m \<Rightarrow>
               (case getitem ob ''joint/mimic/offset'' of
                  Inl e \<Rightarrow> Inl e
                | Inr off \<Rightarrow> Inr (Some (JointMimic j m off)))))"

text \<open>
  \<^verbatim>\<open>
  axis=obj["joint/axis"] if obj["joint/type"] in ["revolute", "prismatic", "continuous"] else None,
  \<close>
\<close>

definition needs_axis :: "pval \<Rightarrow> bool" where
  "needs_axis jt = (jt \<in> {PStr ''revolute'', PStr ''prismatic'', PStr ''continuous''})"

definition joint_axis_of :: "obj \<Rightarrow> pval \<Rightarrow> error + pval option" where
  "joint_axis_of ob jt =
     (if needs_axis jt
      then (case getitem ob ''joint/axis'' of Inl e \<Rightarrow> Inl e | Inr a \<Rightarrow> Inr (Some a))
      else Inr None)"

text \<open>
  \<^verbatim>\<open>
  def deriveJoint(obj, logging=False, adjust=False, errors=None):
      parent = sUtils.getEffectiveParent(obj, ignore_selection=True, include_hidden=True)
      if parent is None:
          log(f"{obj.name} has no parent and therefore can not derive a joint.", "WARNING")
          return None
      # further annotations
      annotations = {}
      for k, v in obj.items():
          if k not in reserved_keys.JOINT_KEYS+reserved_keys.LINK_KEYS+reserved_keys.INTERNAL_KEYS and not k.startswith("link/"):
              k = k.replace("joint/", "")
              ...as in deriveCollision...
      # motor
      motor_children = sUtils.getChildren(obj, phobostypes=["motor"])
      assert len(motor_children) <= 1, f"More than one motor defined for {obj.name}"
      motor = motor_children[0] if len(motor_children) == 1 else None

      return representation.Joint(
          name=obj.get("joint/name", obj.name),
          parent=parent.name,
          child=obj.name,
          joint_type=obj["joint/type"],
          axis=obj["joint/axis"] if obj["joint/type"] in ["revolute", "prismatic", "continuous"] else None,
          origin=deriveObjectPose(obj),
          limit=representation.JointLimit(
              effort=obj.get("joint/limits/effort", None),
              velocity=obj.get("joint/limits/velocity", None),
              lower=obj.get("joint/limits/lower", None),
              upper=obj.get("joint/limits/upper", None)
          ) if any([k.startswith("joint/limits/") for k in obj.keys()]) else None,
          dynamics=representation.JointDynamics(
              damping=obj.get("joint/dynamics/damping", None),
              friction=obj.get("joint/dynamics/friction", None),
              spring_stiffness=obj.get("joint/dynamics/spring_stiffness", None),
              spring_reference=obj.get("joint/dynamics/spring_reference", None)
          ) if any([k.startswith("joint/dynamics/") for k in obj.keys()]) else None,
          mimic=... if "joint/mimic/joint" in obj.keys() else None,
          motor=motor.name if motor is not None else None
      )
  \<close>
  The result is \<open>Inr None\<close> for the \<^verbatim>\<open>None\<close> returned without a parent. The loop builds
  \<^verbatim>\<open>annotations\<close> and can raise, but the call of \<^verbatim>\<open>representation.Joint\<close> does not pass
  them on: a joint has no annotations.
\<close>

definition joint_annotations :: "('z) host_scheme \<Rightarrow> obj \<Rightarrow> error + pdict" where
  "joint_annotations h ob =
     annotation_loop
       (\<lambda>k. k \<notin> set (JOINT_KEYS h @ LINK_KEYS h @ INTERNAL_KEYS h) \<and> \<not> startswith k ''link/'')
       (\<lambda>k. remove_all ''joint/'' k)
       (obj_items ob) []"

definition deriveJoint :: "('z) host_scheme \<Rightarrow> obj \<Rightarrow> error + joint option" where
  "deriveJoint h ob =
     (case getEffectiveParent h ob of
        None \<Rightarrow> Inr None
      | Some parent \<Rightarrow>
     (case joint_annotations h ob of
        Inl e \<Rightarrow> Inl e
      | Inr annotations \<Rightarrow>
     (let motor_children = getChildren h ob [''motor''] in
      if \<not> length motor_children \<le> 1 then Inl AssertionError
      else
     (let motor = (if length motor_children = 1 then Some (hd motor_children) else None);
          get = dict_get (obj_items ob) in
      case getitem ob ''joint/type'' of
        Inl e \<Rightarrow> Inl e
      | Inr jt \<Rightarrow>
     (case joint_axis_of ob jt of
        Inl e \<Rightarrow> Inl e
      | Inr ax \<Rightarrow>
     (case joint_mimic_of ob of
        Inl e \<Rightarrow> Inl e
      | Inr mim \<Rightarrow>
          Inr (Some (Joint
            (case get ''joint/name'' of Some n \<Rightarrow> n | None \<Rightarrow> PStr (name ob))
            (name parent)
            (name ob)
            jt
            ax
            (deriveObjectPose h ob None)
            (if \<exists>k \<in> set (dict_keys (obj_items ob)). startswith k ''joint/limits/''
             then Some (JointLimit (get ''joint/limits/effort'') (get ''joint/limits/velocity'')
                          (get ''joint/limits/lower'') (get ''joint/limits/upper''))
             else None)
            (if \<exists>k \<in> set (dict_keys (obj_items ob)). startswith k ''joint/dynamics/''
             then Some (JointDynamics (get ''joint/dynamics/damping'')
                          (get ''joint/dynamics/friction'')
                          (get ''joint/dynamics/spring_stiffness'')
                          (get ''joint/dynamics/spring_reference''))
             else None)
            mim
            (case motor of Some m \<Rightarrow> Some (name m) | None \<Rightarrow> None)))))))))"

section \<open>Auxiliary notions for the statements and proofs\<close>

text \<open>The entries the annotation loop stores: those whose key passes the condition,
  with the key rewritten.\<close>

definition kept_items :: "(string \<Rightarrow> bool) \<Rightarrow> (string \<Rightarrow> string) \<Rightarrow> pdict \<Rightarrow> pdict" where
  "kept_items keep rename its = map (\<lambda>(k, v). (rename k, v)) (filter (\<lambda>(k, v). keep k) its)"

text \<open>The keys without a separator, the prefixes of the keys with one, and the absence
  of a key of the first kind that is also a prefix.\<close>

definition plain_keys :: "pdict \<Rightarrow> string set" where
  "plain_keys its = {k \<in> fst ` set its. \<not> has_sep k}"

definition head_keys :: "pdict \<Rightarrow> string set" where
  "head_keys its = key_head ` {k \<in> fst ` set its. has_sep k}"

definition no_clash :: "pdict \<Rightarrow> bool" where
  "no_clash its = (plain_keys its \<inter> head_keys its = {})"

text \<open>The state of the annotations after the loop has stored the entries \<open>its\<close>, as a
  loop invariant.\<close>

definition grouped :: "pdict \<Rightarrow> pdict \<Rightarrow> bool" where
  "grouped its ann =
     ((\<forall>k. k \<notin> head_keys its \<longrightarrow> dict_get ann k = (if has_sep k then None else dict_get its k)) \<and>
      (\<forall>p \<in> head_keys its. \<exists>d. dict_get ann p = Some (PDict d) \<and>
            (\<forall>t. dict_get d t = dict_get its (p @ CHR ''/'' # t))))"

text \<open>The number a list of bits stands for, least significant bit first.\<close>

definition bit_char :: "bool \<Rightarrow> char" where
  "bit_char b = (if b then CHR ''1'' else CHR ''0'')"

fun bits_value :: "bool list \<Rightarrow> int" where
  "bits_value [] = 0"
| "bits_value (b # bs) = (if b then 1 else 0) + 2 * bits_value bs"

section \<open>An example scene\<close>

text \<open>
  A link \<^verbatim>\<open>base\<close>, rotated by a quarter turn about the z axis and placed at \<open>(1, 0, 0)\<close>, and
  its child link \<^verbatim>\<open>arm\<close> at \<open>(1, 2, 3)\<close>, a revolute joint with one inertial child and a
  collision object on the layers 0, 2 and 17. In the example host the normalisation
  leaves these matrices as they are, and fusing inertials gives a zero mass and no
  centre of mass or inertia.
\<close>

definition example_base :: obj where
  "example_base =
     Obj ''base'' ''link'' [(''joint/type'', PStr ''fixed'')]
       \<lparr>block3 = ((0, -1, 0), (1, 0, 0), (0, 0, 1)), translation = (1, 0, 0)\<rparr>
       (1, 1, 1) ''base_mesh'' None []"

definition example_inertial :: obj where
  "example_inertial =
     Obj ''arm_inertial'' ''inertial'' [(''density/unit'', PStr ''kg/m3'')]
       \<lparr>block3 = mat_id, translation = (1, 2, 3)\<rparr> (0, 0, 0) ''none'' None []"

definition example_collision :: obj where
  "example_collision =
     Obj ''arm_collision'' ''collision'' [(''geometry/type'', PStr ''box'')]
       \<lparr>block3 = mat_id, translation = (1, 2, 3)\<rparr> (1, 1, 1) ''cube''
       (Some [True, False, True, False, False, False, False, False, False, False,
              False, False, False, False, False, False, False, True, False, False])
       []"

definition example_arm :: obj where
  "example_arm =
     Obj ''arm'' ''link''
       [(''joint/type'', PStr ''revolute''),
        (''joint/axis'', PList [PFloat 0, PFloat 0, PFloat 1]),
        (''joint/limits/lower'', PFloat 0),
        (''joint/name'', PStr ''shoulder''),
        (''note'', PStr ''left'')]
       \<lparr>block3 = mat_id, translation = (1, 2, 3)\<rparr>
       (1, 1, 1) ''arm_mesh'' None [example_inertial, example_collision]"

definition example_host :: host where
  "example_host =
     \<lparr>getEffectiveParent =
        (\<lambda>ob. if name ob = ''base'' then None
              else if name ob = ''arm'' then Some example_base else Some example_arm),
      normalized = (\<lambda>m. m),
      to_scale = (\<lambda>m. (1, 1, 1)),
      mesh_copy = (\<lambda>n. n @ ''.001''),
      scene_objects = [example_base, example_arm, example_inertial, example_collision],
      getChildren = (\<lambda>ob phobostypes. []),
      deriveMaterial = (\<lambda>ob. Inr None),
      fuse_inertia_data = (\<lambda>inertials. Inr (Some (PFloat 0), None, None)),
      inertiaMatrixToList = (\<lambda>m. Inl TypeError),
      VISCOL_KEYS = [''geometry/type''],
      INTERNAL_KEYS = [],
      JOINT_KEYS = [''joint/type'', ''joint/axis''],
      LINK_KEYS = []\<rparr>"






section \<open>Properties\<close>

subsection \<open>Poses\<close>

lemma mat_vec_id: "mat_vec mat_id v = v"
  by (cases v rule: prod_cases3) (simp add: mat_id_def)

lemma mat_mul_id_left: "mat_mul mat_id m = m"
  by (cases m rule: prod_cases3) (auto simp: mat_id_def split: prod.splits)

lemma mat_mul_id_right: "mat_mul m mat_id = m"
  by (cases m rule: prod_cases3) (auto simp: mat_id_def split: prod.splits)

lemma mat_vec_zero: "mat_vec m (0, 0, 0) = (0, 0, 0)"
  by (cases m rule: prod_cases3) (auto split: prod.splits)

lemma vadd_zero_left: "vadd (0, 0, 0) v = v"
  by (cases v rule: prod_cases3) simp

lemma vadd_zero_right: "vadd v (0, 0, 0) = v"
  by (cases v rule: prod_cases3) simp








lemma pose_dot_left_id: "pose_dot pose_identity P = P"
  by (simp add: pose_dot_def pose_identity_def mat_vec_id mat_mul_id_left vadd_zero_left)

lemma pose_dot_right_id: "pose_dot P pose_identity = P"
  by (simp add: pose_dot_def pose_identity_def mat_vec_zero mat_mul_id_right vadd_zero_right)

lemma pose_inv_identity: "pose_inv pose_identity = pose_identity"
  by (simp add: pose_inv_def pose_identity_def mat_id_def)


text \<open>
  C7. For every pose \<open>P\<close>, composing the identity pose with \<open>P\<close> yields \<open>P\<close>, and
  composing \<open>P\<close> with the identity pose yields \<open>P\<close>: the identity laws of the
  composition that deriveObjectPose uses (\<^verbatim>\<open>w2p.inv().dot(w2o)\<close>), on the pose of the
  spec's data model.
\<close>

theorem pose_dot_identity_laws:
  "pose_dot pose_identity P = P \<and> pose_dot P pose_identity = P"
  by (simp add: pose_dot_left_id pose_dot_right_id)

subsection \<open>deriveObjectPose\<close>







text \<open>
  C2. For every object with no effective parent, deriveObjectPose takes the identity
  pose as the parent transform, and the pose it returns is the pose of the object's
  own normalised world matrix.
\<close>

theorem deriveObjectPose_without_parent:
  assumes "getEffectiveParent h ob = None"
  shows "deriveObjectPose h ob None =
           pose_dot (pose_inv pose_identity) (from_matrix (normalized h (matrix_world ob)))
       \<and> deriveObjectPose h ob None = from_matrix (normalized h (matrix_world ob))"
  using assms by (simp add: deriveObjectPose_def pose_inv_identity pose_dot_left_id)

theorem deriveObjectPose_without_parent_witness:
  "getEffectiveParent example_host example_base = None
   \<and> deriveObjectPose example_host example_base None =
       \<lparr>position = (1, 0, 0), rotation = ((0, -1, 0), (1, 0, 0), (0, 0, 1))\<rparr>"
proof -
  have p: "getEffectiveParent example_host example_base = None"
    by (simp add: example_host_def example_base_def)
  have n: "normalized example_host = (\<lambda>m. m)"
    by (simp add: example_host_def)
  have "deriveObjectPose example_host example_base None =
          from_matrix (normalized example_host (matrix_world example_base))"
    using deriveObjectPose_without_parent [OF p] by (rule conjunct2)
  also have "\<dots> = \<lparr>position = (1, 0, 0), rotation = ((0, -1, 0), (1, 0, 0), (0, 0, 1))\<rparr>"
    by (simp add: n from_matrix_def example_base_def)
  finally show ?thesis using p by (intro conjI)
qed


subsection \<open>deriveJoint\<close>

text \<open>What a returned joint was built from.\<close>

lemma deriveJoint_SomeD:
  assumes A: "deriveJoint h ob = Inr (Some j)"
  shows "getitem ob ''joint/type'' = Inr (joint_type j)
       \<and> joint_axis_of ob (joint_type j) = Inr (axis j)"
proof -
  obtain parent where p: "getEffectiveParent h ob = Some parent"
    using A by (cases "getEffectiveParent h ob") (simp_all add: deriveJoint_def)
  obtain ann where a: "joint_annotations h ob = Inr ann"
    using A p by (cases "joint_annotations h ob") (simp_all add: deriveJoint_def)
  have m: "length (getChildren h ob [''motor'']) \<le> 1"
    using A p a
    by (cases "length (getChildren h ob [''motor'']) \<le> 1") (simp_all add: deriveJoint_def)
  obtain jt where t: "getitem ob ''joint/type'' = Inr jt"
    using A p a m by (cases "getitem ob ''joint/type''") (simp_all add: deriveJoint_def)
  obtain ax where x: "joint_axis_of ob jt = Inr ax"
    using A p a m t by (cases "joint_axis_of ob jt") (simp_all add: deriveJoint_def)
  obtain mim where i: "joint_mimic_of ob = Inr mim"
    using A p a m t x by (cases "joint_mimic_of ob") (simp_all add: deriveJoint_def)
  have "joint_type j = jt \<and> axis j = ax"
    using A p a m t x i by (simp add: deriveJoint_def Let_def) (cases j, simp)
  with t x show ?thesis by simp
qed

text \<open>
  C4. For every object from which deriveJoint builds a joint, the joint carries an axis
  if and only if its joint type is one of \<^verbatim>\<open>revolute\<close>, \<^verbatim>\<open>prismatic\<close> and \<^verbatim>\<open>continuous\<close>; for
  every other joint type the axis is \<^verbatim>\<open>None\<close>. The joint type is the property
  \<^verbatim>\<open>joint/type\<close> of the object.
\<close>

theorem deriveJoint_axis_iff_type:
  assumes "deriveJoint h ob = Inr (Some j)"
  shows "getitem ob ''joint/type'' = Inr (joint_type j)
       \<and> (axis j \<noteq> None) =
           (joint_type j \<in> {PStr ''revolute'', PStr ''prismatic'', PStr ''continuous''})"
proof -
  from assms have t: "getitem ob ''joint/type'' = Inr (joint_type j)"
    and ax: "joint_axis_of ob (joint_type j) = Inr (axis j)"
    using deriveJoint_SomeD by blast+
  have "(axis j \<noteq> None) = needs_axis (joint_type j)"
  proof (cases "needs_axis (joint_type j)")
    case True
    with ax have "axis j \<noteq> None"
      by (auto simp: joint_axis_of_def split: sum.splits intro: sym)
    with True show ?thesis by simp
  next
    case False
    with ax have "axis j = None"
      by (simp add: joint_axis_of_def)
    with False show ?thesis by simp
  qed
  with t show ?thesis by (simp add: needs_axis_def)
qed

text \<open>The joint of the example arm. Its property \<^verbatim>\<open>joint/name\<close> becomes the annotation
  \<^verbatim>\<open>name\<close> in the loop, which the call of \<^verbatim>\<open>representation.Joint\<close> never sees.\<close>

lemma example_arm_joint:
  "deriveJoint example_host example_arm =
     Inr (Some (Joint (PStr ''shoulder'') ''base'' ''arm'' (PStr ''revolute'')
       (Some (PList [PFloat 0, PFloat 0, PFloat 1]))
       (deriveObjectPose example_host example_arm None)
       (Some (JointLimit None None (Some (PFloat 0)) None)) None None None))"
proof -
  have n: "name example_arm = ''arm''" "name example_base = ''base''"
    by (simp_all add: example_arm_def example_base_def)
  have p: "getEffectiveParent example_host example_arm = Some example_base"
    by (simp add: example_host_def n)
  have c: "getChildren example_host example_arm [''motor''] = []"
    by (simp add: example_host_def)
  have i: "obj_items example_arm =
       [(''joint/type'', PStr ''revolute''),
        (''joint/axis'', PList [PFloat 0, PFloat 0, PFloat 1]),
        (''joint/limits/lower'', PFloat 0),
        (''joint/name'', PStr ''shoulder''),
        (''note'', PStr ''left'')]"
    by (simp add: example_arm_def)
  have a: "joint_annotations example_host example_arm =
       Inr [(''limits'', PDict [(''lower'', PFloat 0)]), (''name'', PStr ''shoulder''),
            (''note'', PStr ''left'')]"
    by (simp add: joint_annotations_def i example_host_def store_annotation_def has_sep_def
        key_head_def key_tail_def startswith_def dict_get_def dict_keys_def)
  show ?thesis
    by (simp add: deriveJoint_def p c a n i getitem_def dict_get_def dict_keys_def
        joint_axis_of_def needs_axis_def joint_mimic_of_def startswith_def)
qed

lemma example_hand_joint:
  "deriveJoint example_host
     (Obj ''hand'' ''link'' [(''joint/type'', PStr ''fixed''), (''joint/name'', PStr ''wrist'')]
        (matrix_world example_arm) (1, 1, 1) ''hand_mesh'' None [])
   = Inr (Some (Joint (PStr ''wrist'') ''arm'' ''hand'' (PStr ''fixed'') None
       (deriveObjectPose example_host
          (Obj ''hand'' ''link'' [(''joint/type'', PStr ''fixed''), (''joint/name'', PStr ''wrist'')]
             (matrix_world example_arm) (1, 1, 1) ''hand_mesh'' None []) None)
       None None None None))"
  by (simp add: deriveJoint_def joint_annotations_def store_annotation_def has_sep_def
      key_head_def key_tail_def startswith_def dict_get_def dict_keys_def getitem_def
      joint_axis_of_def needs_axis_def joint_mimic_of_def example_host_def example_arm_def)

theorem deriveJoint_axis_iff_type_witness:
  "deriveJoint example_host example_arm =
     Inr (Some (Joint (PStr ''shoulder'') ''base'' ''arm'' (PStr ''revolute'')
       (Some (PList [PFloat 0, PFloat 0, PFloat 1]))
       (deriveObjectPose example_host example_arm None)
       (Some (JointLimit None None (Some (PFloat 0)) None)) None None None))
   \<and> getitem example_arm ''joint/type'' = Inr (PStr ''revolute'')
   \<and> (Some (PList [PFloat 0, PFloat 0, PFloat 1]) \<noteq> None) =
       (PStr ''revolute'' \<in> {PStr ''revolute'', PStr ''prismatic'', PStr ''continuous''})
   \<and> deriveJoint example_host
        (Obj ''hand'' ''link'' [(''joint/type'', PStr ''fixed''), (''joint/name'', PStr ''wrist'')]
           (matrix_world example_arm) (1, 1, 1) ''hand_mesh'' None [])
      = Inr (Some (Joint (PStr ''wrist'') ''arm'' ''hand'' (PStr ''fixed'') None
          (deriveObjectPose example_host
             (Obj ''hand'' ''link''
                [(''joint/type'', PStr ''fixed''), (''joint/name'', PStr ''wrist'')]
                (matrix_world example_arm) (1, 1, 1) ''hand_mesh'' None []) None)
          None None None None))
   \<and> ((None :: pval option) \<noteq> None) =
       (PStr ''fixed'' \<in> {PStr ''revolute'', PStr ''prismatic'', PStr ''continuous''})"
proof -
  have a: "getitem example_arm ''joint/type'' = Inr (PStr ''revolute'')"
    using deriveJoint_axis_iff_type [OF example_arm_joint, THEN conjunct1]
    by (simp only: joint.sel)
  have a': "(Some (PList [PFloat 0, PFloat 0, PFloat 1]) \<noteq> None) =
         (PStr ''revolute'' \<in> {PStr ''revolute'', PStr ''prismatic'', PStr ''continuous''})"
    using deriveJoint_axis_iff_type [OF example_arm_joint, THEN conjunct2]
    by (simp only: joint.sel)
  have b: "((None :: pval option) \<noteq> None) =
       (PStr ''fixed'' \<in> {PStr ''revolute'', PStr ''prismatic'', PStr ''continuous''})"
    using deriveJoint_axis_iff_type [OF example_hand_joint, THEN conjunct2]
    by (simp only: joint.sel)
  from example_arm_joint a a' example_hand_joint b show ?thesis
    by (intro conjI)
qed

text \<open>
  C9. For every object that has no effective parent, deriveJoint returns \<^verbatim>\<open>None\<close>: no
  joint is built and no error is raised.
\<close>

theorem deriveJoint_without_parent:
  assumes "getEffectiveParent h ob = None"
  shows "deriveJoint h ob = Inr None"
  using assms by (simp add: deriveJoint_def)

theorem deriveJoint_without_parent_witness:
  "getEffectiveParent example_host example_base = None
   \<and> deriveJoint example_host example_base = Inr None"
proof -
  have p: "getEffectiveParent example_host example_base = None"
    by (simp add: example_host_def example_base_def)
  from p deriveJoint_without_parent [OF p] show ?thesis by (intro conjI)
qed

subsection \<open>deriveCollision: the bitmask\<close>

lemma bin_digits_snoc:
  "bin_digits (s @ [bit_char b]) acc =
     (case bin_digits s acc of Inl e \<Rightarrow> Inl e | Inr n \<Rightarrow> Inr (2 * n + (if b then 1 else 0)))"
  by (induction s arbitrary: acc) (auto simp: bit_char_def)

lemma bin_digits_rev: "bin_digits (rev (map bit_char bs)) 0 = Inr (bits_value bs)"
  by (induction bs) (auto simp: bin_digits_snoc)

lemma bits_value_bounds: "0 \<le> bits_value bs \<and> bits_value bs < 2 ^ length bs"
  by (induction bs) auto

lemma bits_value_sum: "bits_value bs = (\<Sum>i<length bs. if bs ! i then 2 ^ i else 0)"
proof (induction bs)
  case Nil
  show ?case by simp
next
  case (Cons b bs)
  have "(\<Sum>i<length (b # bs). if (b # bs) ! i then 2 ^ i else (0::int))
      = (if b then 1 else 0) + (\<Sum>i<length bs. if bs ! i then 2 ^ Suc i else 0)"
    by (simp add: sum.lessThan_Suc_shift del: sum.lessThan_Suc)
  also have "(\<Sum>i<length bs. if bs ! i then 2 ^ Suc i else (0::int))
      = 2 * (\<Sum>i<length bs. if bs ! i then 2 ^ i else 0)"
    by (simp add: sum_distrib_left if_distrib cong: if_cong)
  finally show ?case using Cons.IH by simp
qed

lemma collision_bitmask_value:
  assumes "collision_collections ob = Some groups" "groups \<noteq> []"
  shows "collision_bitmask ob = Inr (Some (bits_value (take 16 groups)))"
  using assms bin_digits_rev [of "take 16 groups"]
  by (simp add: collision_bitmask_def int_base2_def bit_char_def [abs_def])

lemma deriveCollision_bitmask:
  "deriveCollision h ob linkobj dup = Inr c \<Longrightarrow> collision_bitmask ob = Inr (c_bitmask c)"
  by (subst (asm) deriveCollision.simps) (auto split: sum.splits if_splits)

text \<open>
  C8. For every object whose rigid body has \<^verbatim>\<open>collision_collections\<close> (in Blender an array
  of 20 booleans; any non-empty list here), the bitmask computed by deriveCollision is
  an integer \<open>n\<close> with \<open>0 \<le> n < 2^16\<close>. It is the number whose bit \<open>i\<close> is group \<open>i\<close>, for the
  first 16 groups; it is the bitmask of every collision that deriveCollision returns for
  the object; and an object whose first 16 groups are the same has the same bitmask, so
  the groups from index 16 on never change it.
\<close>

theorem collision_bitmask_range:
  assumes "collision_collections ob = Some groups" and "groups \<noteq> []"
  shows "\<exists>n. collision_bitmask ob = Inr (Some n) \<and> 0 \<le> n \<and> n < 2 ^ 16
          \<and> n = (\<Sum>i<min 16 (length groups). if groups ! i then 2 ^ i else 0)
          \<and> (\<forall>c. deriveCollision h ob linkobj duplicate_mesh = Inr c \<longrightarrow> c_bitmask c = Some n)
          \<and> (\<forall>ob' groups'. collision_collections ob' = Some groups'
                  \<and> take 16 groups' = take 16 groups
                \<longrightarrow> collision_bitmask ob' = Inr (Some n))"
proof -
  let ?n = "bits_value (take 16 groups)"
  have v: "collision_bitmask ob = Inr (Some ?n)"
    using assms by (rule collision_bitmask_value)
  have "?n < 2 ^ length (take 16 groups)"
    using bits_value_bounds by blast
  also have "\<dots> \<le> 2 ^ 16"
    by (rule power_increasing) simp_all
  finally have ub: "?n < 2 ^ 16" .
  have lb: "0 \<le> ?n"
    using bits_value_bounds by blast
  have s: "?n = (\<Sum>i<min 16 (length groups). if groups ! i then 2 ^ i else 0)"
    by (simp add: bits_value_sum min.commute)
  have d: "\<forall>c. deriveCollision h ob linkobj duplicate_mesh = Inr c \<longrightarrow> c_bitmask c = Some ?n"
    using v by (auto dest: deriveCollision_bitmask)
  have i: "\<forall>ob' groups'. collision_collections ob' = Some groups'
              \<and> take 16 groups' = take 16 groups
            \<longrightarrow> collision_bitmask ob' = Inr (Some ?n)"
  proof (intro allI impI)
    fix ob' groups'
    assume a: "collision_collections ob' = Some groups' \<and> take 16 groups' = take 16 groups"
    with assms(2) have "groups' \<noteq> []" by auto
    with a show "collision_bitmask ob' = Inr (Some ?n)"
      using collision_bitmask_value [of ob' groups'] by simp
  qed
  from v lb ub s d i show ?thesis by blast
qed

lemma example_collision_bitmask: "collision_bitmask example_collision = Inr (Some 5)"
  by (simp add: collision_bitmask_def int_base2_def example_collision_def)

theorem collision_bitmask_range_witness:
  "collision_collections example_collision =
     Some [True, False, True, False, False, False, False, False, False, False,
           False, False, False, False, False, False, False, True, False, False]
   \<and> collision_bitmask example_collision = Inr (Some 5) \<and> (0::int) \<le> 5 \<and> (5::int) < 2 ^ 16"
proof -
  have c: "collision_collections example_collision =
     Some [True, False, True, False, False, False, False, False, False, False,
           False, False, False, False, False, False, False, True, False, False]"
    by (simp add: example_collision_def)
  obtain n where n: "collision_bitmask example_collision = Inr (Some n)" "0 \<le> n" "n < 2 ^ 16"
    using collision_bitmask_range [OF c] by blast
  from n(1) have "n = 5"
    by (simp add: example_collision_bitmask)
  with c n show ?thesis by simp
qed

subsection \<open>deriveLink: the inertial\<close>

lemma deriveLink_inertial:
  "deriveLink h ob objectlist = Inr l \<Longrightarrow> link_inertial h ob = Inr (l_inertial l)"
  by (auto simp: deriveLink_def Let_def split: sum.splits if_splits prod.splits)

text \<open>
  C3. When the inertial children of a link fuse to a zero mass (or none) with no centre
  of mass and no inertia, and likewise when the link has no inertial children, the
  inertial part of deriveLink gives an absent inertial and raises nothing: every
  link that deriveLink returns has the inertial \<^verbatim>\<open>None\<close>, and deriveLink does return a
  link whenever gathering the visuals and collisions and grouping the annotations, the
  other parts of deriveLink, succeed.
\<close>

theorem deriveLink_zero_mass_no_inertial:
  assumes "filter (\<lambda>inert. phobostype inert = ''inertial'') (children ob) = []
           \<or> (\<exists>mass. fuse_inertia_data h
                        (filter (\<lambda>inert. phobostype inert = ''inertial'') (children ob))
                        = Inr (mass, None, None)
                      \<and> mass \<in> {Some (PFloat 0), Some (PInt 0), None})"
  shows "link_inertial h ob = Inr None
       \<and> (\<forall>l. deriveLink h ob objectlist = Inr l \<longrightarrow> l_inertial l = None)
       \<and> (\<forall>visuals collisions annotations.
            link_parts h ob
              (filter (\<lambda>item. phobostype item \<in> {''visual'', ''collision'', ''approxsphere''})
                 (case objectlist of None \<Rightarrow> scene_objects h | Some l \<Rightarrow> l)) [] []
              = Inr (visuals, collisions)
            \<and> link_annotations h ob = Inr annotations
            \<and> \<not> kwargs_clash [''name'', ''visuals'', ''collisions'', ''inertial'', ''kccd_hull'']
                  annotations
            \<longrightarrow> deriveLink h ob objectlist
                  = Inr (Link (name ob) visuals collisions None annotations))"
proof -
  have i: "link_inertial h ob = Inr None"
    using assms by (auto simp: link_inertial_def Let_def)
  then have "\<forall>l. deriveLink h ob objectlist = Inr l \<longrightarrow> l_inertial l = None"
    by (auto dest: deriveLink_inertial)
  moreover have "\<forall>visuals collisions annotations.
            link_parts h ob
              (filter (\<lambda>item. phobostype item \<in> {''visual'', ''collision'', ''approxsphere''})
                 (case objectlist of None \<Rightarrow> scene_objects h | Some l \<Rightarrow> l)) [] []
              = Inr (visuals, collisions)
            \<and> link_annotations h ob = Inr annotations
            \<and> \<not> kwargs_clash [''name'', ''visuals'', ''collisions'', ''inertial'', ''kccd_hull'']
                  annotations
            \<longrightarrow> deriveLink h ob objectlist
                  = Inr (Link (name ob) visuals collisions None annotations)"
    by (simp add: deriveLink_def Let_def i)
  ultimately show ?thesis using i by simp
qed

lemma deriveCollision_leaf:
  assumes "children ob = []"
  shows "deriveCollision h ob linkobj duplicate_mesh =
     (case collision_bitmask ob of
        Inl e \<Rightarrow> Inl e
      | Inr bitmask \<Rightarrow>
     (case group_annotations (VISCOL_KEYS h @ INTERNAL_KEYS h) (obj_items ob) of
        Inl e \<Rightarrow> Inl e
      | Inr annotations \<Rightarrow>
     (case deriveGeometry h ob duplicate_mesh of
        Inl e \<Rightarrow> Inl e
      | Inr geometry \<Rightarrow>
          if kwargs_clash [''name'', ''geometry'', ''origin'', ''bitmask'', ''primitives'']
               annotations
          then Inl TypeError
          else Inr (Collision (name ob) geometry (deriveObjectPose h ob linkobj)
                      bitmask [] annotations))))"
  by (subst deriveCollision.simps) (simp add: assms split: sum.splits)

lemma example_collision_derived:
  "deriveCollision example_host example_collision None False =
     Inr (Collision ''arm_collision'' (Box (1, 1, 1))
            (deriveObjectPose example_host example_collision None) (Some 5) [] [])"
proof -
  have c: "children example_collision = []"
    by (simp add: example_collision_def)
  have g: "group_annotations (VISCOL_KEYS example_host @ INTERNAL_KEYS example_host)
             (obj_items example_collision) = Inr []"
    by (simp add: group_annotations_def example_host_def example_collision_def)
  have d: "deriveGeometry example_host example_collision False = Inr (Box (1, 1, 1))"
    by (simp add: deriveGeometry_def example_collision_def dict_get_def)
  show ?thesis
    by (simp add: deriveCollision_leaf [OF c] example_collision_bitmask g d kwargs_clash_def
        dict_keys_def) (simp add: example_collision_def)
qed

lemma example_arm_parts:
  "link_parts example_host example_arm
     (filter (\<lambda>item. phobostype item \<in> {''visual'', ''collision'', ''approxsphere''})
        (scene_objects example_host)) [] []
   = Inr ([], [Collision ''arm_collision'' (Box (1, 1, 1))
            (deriveObjectPose example_host example_collision None) (Some 5) [] []])"
proof -
  have f: "filter (\<lambda>item. phobostype item \<in> {''visual'', ''collision'', ''approxsphere''})
        (scene_objects example_host) = [example_collision]"
    by (simp add: example_host_def example_base_def example_arm_def example_inertial_def
        example_collision_def)
  have p: "getEffectiveParent example_host example_collision = Some example_arm"
    by (simp add: example_host_def example_collision_def)
  have t: "phobostype example_collision = ''collision''"
    by (simp add: example_collision_def)
  show ?thesis
    unfolding f by (simp add: p t example_collision_derived)
qed

lemma example_arm_annotations:
  "link_annotations example_host example_arm = Inr [(''note'', PStr ''left'')]"
  by (simp add: link_annotations_def example_host_def example_arm_def startswith_def
      store_annotation_def has_sep_def)

lemma example_arm_fuse:
  "fuse_inertia_data example_host
     (filter (\<lambda>inert. phobostype inert = ''inertial'') (children example_arm))
   = Inr (Some (PFloat 0), None, None)"
  by (simp add: example_host_def)

lemma example_arm_inertials:
  "filter (\<lambda>inert. phobostype inert = ''inertial'') (children example_arm) = [example_inertial]"
  by (simp add: example_arm_def example_inertial_def example_collision_def)

theorem deriveLink_zero_mass_no_inertial_witness:
  "filter (\<lambda>inert. phobostype inert = ''inertial'') (children example_arm) = [example_inertial]
   \<and> fuse_inertia_data example_host [example_inertial] = Inr (Some (PFloat 0), None, None)
   \<and> link_inertial example_host example_arm = Inr None
   \<and> deriveLink example_host example_arm None =
       Inr (Link ''arm'' []
              [Collision ''arm_collision'' (Box (1, 1, 1))
                 (deriveObjectPose example_host example_collision None) (Some 5) [] []]
              None [(''note'', PStr ''left'')])"
proof -
  have h: "filter (\<lambda>inert. phobostype inert = ''inertial'') (children example_arm) = []
           \<or> (\<exists>mass. fuse_inertia_data example_host
                        (filter (\<lambda>inert. phobostype inert = ''inertial'') (children example_arm))
                        = Inr (mass, None, None)
                      \<and> mass \<in> {Some (PFloat 0), Some (PInt 0), None})"
    using example_arm_fuse by simp
  note t = deriveLink_zero_mass_no_inertial [OF h, of None]
  from t have i: "link_inertial example_host example_arm = Inr None"
    by (rule conjunct1)
  have k: "\<not> kwargs_clash [''name'', ''visuals'', ''collisions'', ''inertial'', ''kccd_hull'']
          [(''note'', PStr ''left'')]"
    by (simp add: kwargs_clash_def dict_keys_def)
  have p: "link_parts example_host example_arm
     (filter (\<lambda>item. phobostype item \<in> {''visual'', ''collision'', ''approxsphere''})
        (case None of None \<Rightarrow> scene_objects example_host | Some l \<Rightarrow> l)) [] []
   = Inr ([], [Collision ''arm_collision'' (Box (1, 1, 1))
            (deriveObjectPose example_host example_collision None) (Some 5) [] []])"
    using example_arm_parts by simp
  from t p example_arm_annotations k
  have "deriveLink example_host example_arm None =
       Inr (Link (name example_arm) []
              [Collision ''arm_collision'' (Box (1, 1, 1))
                 (deriveObjectPose example_host example_collision None) (Some 5) [] []]
              None [(''note'', PStr ''left'')])"
    by blast
  moreover have "name example_arm = ''arm''"
    by (simp add: example_arm_def)
  ultimately have l: "deriveLink example_host example_arm None =
       Inr (Link ''arm'' []
              [Collision ''arm_collision'' (Box (1, 1, 1))
                 (deriveObjectPose example_host example_collision None) (Some 5) [] []]
              None [(''note'', PStr ''left'')])"
    by simp
  have f: "fuse_inertia_data example_host [example_inertial] = Inr (Some (PFloat 0), None, None)"
    by (simp add: example_host_def)
  from example_arm_inertials f i l show ?thesis
    by (intro conjI)
qed

subsection \<open>The annotation loop\<close>

lemma dict_get_set: "dict_get (dict_set d k v) k' = (if k' = k then Some v else dict_get d k')"
  by (induction d) (auto simp: dict_get_def)

lemma dict_keys_set_list:
  "dict_keys (dict_set d k v) = (if k \<in> set (dict_keys d) then dict_keys d else dict_keys d @ [k])"
  by (induction d) (force simp: dict_keys_def)+

lemma dict_keys_set: "set (dict_keys (dict_set d k v)) = insert k (set (dict_keys d))"
  by (auto simp: dict_keys_set_list)

lemma dict_get_None: "(dict_get d k = None) = (k \<notin> set (dict_keys d))"
  by (simp add: dict_get_def dict_keys_def map_of_eq_None_iff)

lemma key_split: "has_sep k \<Longrightarrow> k = key_head k @ CHR ''/'' # key_tail k"
proof -
  assume "has_sep k"
  then have ne: "dropWhile (\<lambda>c. c \<noteq> CHR ''/'') k \<noteq> []"
    by (simp add: has_sep_def)
  then have "hd (dropWhile (\<lambda>c. c \<noteq> CHR ''/'') k) = CHR ''/''"
    using hd_dropWhile [of "\<lambda>c. c \<noteq> CHR ''/''" k] by simp
  with ne have "dropWhile (\<lambda>c. c \<noteq> CHR ''/'') k = CHR ''/'' # key_tail k"
    by (cases "dropWhile (\<lambda>c. c \<noteq> CHR ''/'') k") (simp_all add: key_tail_def)
  then show ?thesis
    using takeWhile_dropWhile_id [of "\<lambda>c. c \<noteq> CHR ''/''" k] by (simp add: key_head_def)
qed

lemma key_head_no_sep: "\<not> has_sep (key_head k)"
  by (auto simp: has_sep_def key_head_def dest: set_takeWhileD)

lemma loop_append:
  "annotation_loop keep rename (xs @ ys) acc =
     (case annotation_loop keep rename xs acc of
        Inl e \<Rightarrow> Inl e
      | Inr a \<Rightarrow> annotation_loop keep rename ys a)"
  by (induction xs arbitrary: acc) (auto split: sum.splits)

lemma loop_kept:
  "annotation_loop keep rename its acc =
     annotation_loop (\<lambda>k. True) (\<lambda>k. k) (kept_items keep rename its) acc"
  by (induction its arbitrary: acc) (auto simp: kept_items_def split: sum.splits)

lemma dict_get_snoc:
  "k \<notin> fst ` set its \<Longrightarrow> dict_get (its @ [(k, v)]) k' = (if k' = k then Some v else dict_get its k')"
proof -
  assume "k \<notin> fst ` set its"
  then have "map_of its k = None" by (simp add: map_of_eq_None_iff)
  then show ?thesis by (simp add: dict_get_def map_add_def split: option.splits)
qed

lemma head_of_join: "\<not> has_sep p \<Longrightarrow> key_head (p @ CHR ''/'' # t) = p"
  by (induction p) (auto simp: key_head_def has_sep_def)

lemma tail_of_join: "\<not> has_sep p \<Longrightarrow> key_tail (p @ CHR ''/'' # t) = t"
  by (induction p) (auto simp: key_tail_def has_sep_def)

lemma has_sep_join: "has_sep (p @ CHR ''/'' # t)"
  by (simp add: has_sep_def)

lemma store_plain:
  assumes g: "grouped its ann" and k: "k \<notin> fst ` set its" and p: "\<not> has_sep k"
    and c: "k \<notin> head_keys its"
  shows "store_annotation ann k v = Inr (dict_set ann k v) \<and> grouped (its @ [(k, v)]) (dict_set ann k v)"
proof -
  have h: "head_keys (its @ [(k, v)]) = head_keys its"
    using p by (auto simp: head_keys_def)
  have "grouped (its @ [(k, v)]) (dict_set ann k v)"
    unfolding grouped_def h
  proof (intro conjI allI ballI impI)
    fix k' assume "k' \<notin> head_keys its"
    then show "dict_get (dict_set ann k v) k' = (if has_sep k' then None else dict_get (its @ [(k, v)]) k')"
      using g p k by (auto simp: grouped_def dict_get_set dict_get_snoc)
  next
    fix q assume q: "q \<in> head_keys its"
    then obtain d where d: "dict_get ann q = Some (PDict d)" "\<forall>t. dict_get d t = dict_get its (q @ CHR ''/'' # t)"
      using g by (auto simp: grouped_def)
    have "q \<noteq> k" using q c by auto
    moreover have "q @ CHR ''/'' # t \<noteq> k" for t
      using p has_sep_join [of q t] by auto
    ultimately show "\<exists>d. dict_get (dict_set ann k v) q = Some (PDict d) \<and>
            (\<forall>t. dict_get d t = dict_get (its @ [(k, v)]) (q @ CHR ''/'' # t))"
      using d k by (auto simp: dict_get_set dict_get_snoc)
  qed
  then show ?thesis using p by (simp add: store_annotation_def)
qed

lemma store_sep:
  assumes g: "grouped its ann" and k: "k \<notin> fst ` set its" and p: "has_sep k"
    and c: "key_head k \<notin> plain_keys its"
  shows "\<exists>ann'. store_annotation ann k v = Inr ann' \<and> grouped (its @ [(k, v)]) ann'"
proof -
  let ?p = "key_head k" and ?t = "key_tail k"
  have kk: "k = ?p @ CHR ''/'' # ?t" using p by (rule key_split)
  have np: "\<not> has_sep ?p" by (rule key_head_no_sep)
  have h: "head_keys (its @ [(k, v)]) = insert ?p (head_keys its)"
    using p by (auto simp: head_keys_def)
  txt \<open>The nested mapping found or created under the prefix.\<close>
  obtain d ann0 where
    a0: "ann0 = (if ?p \<notin> set (dict_keys ann) then dict_set ann ?p (PDict []) else ann)"
    and d: "dict_get ann0 ?p = Some (PDict d)"
    and dt: "\<forall>t. dict_get d t = dict_get its (?p @ CHR ''/'' # t)"
  proof (cases "?p \<in> head_keys its")
    case True
    then obtain d where d: "dict_get ann ?p = Some (PDict d)"
        "\<forall>t. dict_get d t = dict_get its (?p @ CHR ''/'' # t)"
      using g by (auto simp: grouped_def)
    then have "?p \<in> set (dict_keys ann)"
      using dict_get_None [of ann ?p] by auto
    with d that [of ann d] show ?thesis by simp
  next
    case False
    have "?p \<notin> fst ` set its"
      using c np by (auto simp: plain_keys_def)
    then have "dict_get its ?p = None"
      by (simp add: dict_get_def map_of_eq_None_iff)
    with False g np have "dict_get ann ?p = None"
      by (simp add: grouped_def)
    then have n: "?p \<notin> set (dict_keys ann)"
      by (simp add: dict_get_None)
    have "dict_get its (?p @ CHR ''/'' # t) = None" for t
    proof -
      have "?p @ CHR ''/'' # t \<notin> fst ` set its"
      proof
        assume "?p @ CHR ''/'' # t \<in> fst ` set its"
        then have "key_head (?p @ CHR ''/'' # t) \<in> head_keys its"
          unfolding head_keys_def using has_sep_join by blast
        with False show False by (simp add: head_of_join np)
      qed
      then show ?thesis by (simp add: dict_get_def map_of_eq_None_iff)
    qed
    then have "\<forall>t. dict_get [] t = dict_get its (?p @ CHR ''/'' # t)"
      by (simp add: dict_get_def)
    with n that [of "dict_set ann ?p (PDict [])" "[]"] show ?thesis
      by (simp add: dict_get_set)
  qed
  let ?ann' = "dict_set ann0 ?p (PDict (dict_set d ?t v))"
  have s: "store_annotation ann k v = Inr ?ann'"
    using p d a0 by (simp add: store_annotation_def Let_def)
  have other: "dict_get ann0 q = dict_get ann q" if "q \<noteq> ?p" for q
    using that by (simp add: a0 dict_get_set)
  have gr: "grouped (its @ [(k, v)]) ?ann'"
    unfolding grouped_def h
  proof (intro conjI allI ballI impI)
    fix k' assume k': "k' \<notin> insert ?p (head_keys its)"
    then have "dict_get ?ann' k' = dict_get ann k'"
      by (simp add: dict_get_set other)
    moreover have "\<not> has_sep k' \<Longrightarrow> k' \<noteq> k" using p by auto
    ultimately show "dict_get ?ann' k' = (if has_sep k' then None else dict_get (its @ [(k, v)]) k')"
      using g k k' by (auto simp: grouped_def dict_get_snoc)
  next
    fix q assume q: "q \<in> insert ?p (head_keys its)"
    show "\<exists>d. dict_get ?ann' q = Some (PDict d) \<and>
            (\<forall>t. dict_get d t = dict_get (its @ [(k, v)]) (q @ CHR ''/'' # t))"
    proof (cases "q = ?p")
      case True
      have "dict_get (dict_set d ?t v) t = dict_get (its @ [(k, v)]) (?p @ CHR ''/'' # t)" for t
      proof (cases "t = ?t")
        case True
        then show ?thesis using k kk by (simp add: dict_get_set dict_get_snoc)
      next
        case False
        have "?p @ CHR ''/'' # t \<noteq> k"
        proof
          assume "?p @ CHR ''/'' # t = k"
          with kk have "?p @ CHR ''/'' # t = ?p @ CHR ''/'' # ?t" by simp
          with False show False by simp
        qed
        with False show ?thesis using k dt by (simp add: dict_get_set dict_get_snoc)
      qed
      with True show ?thesis by (simp add: dict_get_set)
    next
      case False
      with q have qh: "q \<in> head_keys its" by simp
      then obtain d' where d': "dict_get ann q = Some (PDict d')"
        "\<forall>t. dict_get d' t = dict_get its (q @ CHR ''/'' # t)"
        using g by (auto simp: grouped_def)
      have nq: "\<not> has_sep q" using qh key_head_no_sep by (auto simp: head_keys_def)
      have "q @ CHR ''/'' # t \<noteq> k" for t
      proof
        assume "q @ CHR ''/'' # t = k"
        then have "key_head k = q" using head_of_join [OF nq] by auto
        with False show False by simp
      qed
      with d' False show ?thesis
        using k by (simp add: dict_get_set other dict_get_snoc)
    qed
  qed
  show ?thesis
    by (rule exI [of _ ?ann']) (simp only: s gr simp_thms)
qed

lemma grouped_empty: "grouped [] []"
  by (simp add: grouped_def head_keys_def dict_get_def)

lemma plain_keys_snoc: "plain_keys its \<subseteq> plain_keys (its @ [x])"
  by (auto simp: plain_keys_def)

lemma head_keys_snoc: "head_keys its \<subseteq> head_keys (its @ [x])"
  by (auto simp: head_keys_def)

lemma no_clash_butlast: "no_clash (its @ [x]) \<Longrightarrow> no_clash its"
  unfolding no_clash_def using plain_keys_snoc [of its x] head_keys_snoc [of its x] by blast

lemma store_all_grouped:
  "distinct (map fst its) \<Longrightarrow> no_clash its \<Longrightarrow>
     \<exists>ann. annotation_loop (\<lambda>k. True) (\<lambda>k. k) its [] = Inr ann \<and> grouped its ann"
proof (induction its rule: rev_induct)
  case Nil
  then show ?case by (simp add: grouped_empty)
next
  case (snoc x its)
  obtain k v where x: "x = (k, v)" by (cases x)
  from snoc.prems have dist: "distinct (map fst its)" and k: "k \<notin> fst ` set its"
    by (auto simp: x)
  from snoc.prems have nc: "no_clash its" by (auto dest: no_clash_butlast)
  from snoc.IH [OF dist nc] obtain ann where
    ann: "annotation_loop (\<lambda>k. True) (\<lambda>k. k) its [] = Inr ann" and g: "grouped its ann"
    by blast
  have "\<exists>ann'. store_annotation ann k v = Inr ann' \<and> grouped (its @ [(k, v)]) ann'"
  proof (cases "has_sep k")
    case True
    have "key_head k \<notin> plain_keys its"
      using snoc.prems(2) True by (auto simp: x no_clash_def plain_keys_def head_keys_def)
    with g k True show ?thesis by (rule store_sep)
  next
    case False
    have "k \<notin> head_keys its"
      using snoc.prems(2) False by (auto simp: x no_clash_def plain_keys_def head_keys_def)
    with g k False show ?thesis using store_plain by blast
  qed
  then show ?case
    by (auto simp: x loop_append ann)
qed


lemma grouped_keys:
  assumes "grouped its ann"
  shows "set (dict_keys ann) = plain_keys its \<union> head_keys its"
proof (rule set_eqI)
  fix k
  show "(k \<in> set (dict_keys ann)) = (k \<in> plain_keys its \<union> head_keys its)"
  proof (cases "k \<in> head_keys its")
    case True
    then obtain d where "dict_get ann k = Some (PDict d)"
      using assms by (auto simp: grouped_def)
    then have "k \<in> set (dict_keys ann)"
      using dict_get_None [of ann k] by simp
    with True show ?thesis by simp
  next
    case False
    then have "dict_get ann k = (if has_sep k then None else dict_get its k)"
      using assms by (simp add: grouped_def)
    then have "(k \<in> set (dict_keys ann)) = (\<not> has_sep k \<and> k \<in> fst ` set its)"
      using dict_get_None [of ann k]
      by (auto simp: dict_get_def map_of_eq_None_iff split: if_splits)
    with False show ?thesis by (auto simp: plain_keys_def)
  qed
qed

lemma grouped_plain:
  assumes "grouped its ann" "distinct (map fst its)" "no_clash its"
    and "(k, v) \<in> set its" "\<not> has_sep k"
  shows "dict_get ann k = Some v"
proof -
  have "k \<in> plain_keys its"
    using assms(4,5) by (force simp: plain_keys_def)
  then have "k \<notin> head_keys its"
    using assms(3) by (auto simp: no_clash_def)
  then have "dict_get ann k = dict_get its k"
    using assms(1,5) by (simp add: grouped_def)
  then show ?thesis
    using assms(2,4) by (simp add: dict_get_def)
qed

lemma grouped_sep:
  assumes "grouped its ann" "distinct (map fst its)"
    and "(k, v) \<in> set its" "has_sep k"
  shows "\<exists>d. dict_get ann (key_head k) = Some (PDict d) \<and> dict_get d (key_tail k) = Some v
           \<and> set (dict_keys d)
               = key_tail ` {k' \<in> fst ` set its. has_sep k' \<and> key_head k' = key_head k}"
proof -
  let ?p = "key_head k"
  have np: "\<not> has_sep ?p" by (rule key_head_no_sep)
  have "?p \<in> head_keys its"
    using assms(3,4) by (force simp: head_keys_def)
  then obtain d where d: "dict_get ann ?p = Some (PDict d)"
    and dt: "\<And>t. dict_get d t = dict_get its (?p @ CHR ''/'' # t)"
    using assms(1) by (auto simp: grouped_def)
  have "dict_get d (key_tail k) = dict_get its k"
    using dt [of "key_tail k"] key_split [OF assms(4)] by simp
  then have v: "dict_get d (key_tail k) = Some v"
    using assms(2,3) by (simp add: dict_get_def)
  have "set (dict_keys d) = key_tail ` {k' \<in> fst ` set its. has_sep k' \<and> key_head k' = ?p}"
  proof (rule set_eqI)
    fix t
    have "(t \<in> set (dict_keys d)) = (dict_get d t \<noteq> None)"
      using dict_get_None [of d t] by simp
    also have "\<dots> = (dict_get its (?p @ CHR ''/'' # t) \<noteq> None)"
      by (simp only: dt)
    also have "\<dots> = (?p @ CHR ''/'' # t \<in> fst ` set its)"
      using dict_get_None [of its "?p @ CHR ''/'' # t"] by (simp add: dict_keys_def)
    also have "\<dots> = (t \<in> key_tail ` {k' \<in> fst ` set its. has_sep k' \<and> key_head k' = ?p})"
    proof
      assume a: "?p @ CHR ''/'' # t \<in> fst ` set its"
      have "?p @ CHR ''/'' # t \<in> {k' \<in> fst ` set its. has_sep k' \<and> key_head k' = ?p}"
        using a has_sep_join [of ?p t] head_of_join [OF np, of t] by simp
      then have "key_tail (?p @ CHR ''/'' # t)
          \<in> key_tail ` {k' \<in> fst ` set its. has_sep k' \<and> key_head k' = ?p}"
        by (rule imageI)
      then show "t \<in> key_tail ` {k' \<in> fst ` set its. has_sep k' \<and> key_head k' = ?p}"
        by (simp only: tail_of_join [OF np])
    next
      assume "t \<in> key_tail ` {k' \<in> fst ` set its. has_sep k' \<and> key_head k' = ?p}"
      then obtain k' where k': "k' \<in> fst ` set its" "has_sep k'" "key_head k' = ?p" "t = key_tail k'"
        by auto
      then have "k' = ?p @ CHR ''/'' # t"
        using key_split [of k'] by simp
      with k'(1) show "?p @ CHR ''/'' # t \<in> fst ` set its" by simp
    qed
    finally show "(t \<in> set (dict_keys d))
        = (t \<in> key_tail ` {k' \<in> fst ` set its. has_sep k' \<and> key_head k' = ?p})" .
  qed
  with d v show ?thesis by blast
qed

lemma no_clashI:
  assumes "\<forall>k \<in> fst ` set its. \<forall>k' \<in> fst ` set its. has_sep k' \<longrightarrow> k \<noteq> key_head k'"
  shows "no_clash its"
  unfolding no_clash_def plain_keys_def head_keys_def using assms by blast

text \<open>
  C5, amended. The annotation loop drops every entry whose key fails the loop's
  condition (in deriveCollision: the key is in the excluded list; in deriveLink: it is
  in the excluded list or starts with \<^verbatim>\<open>joint/\<close>) and stores the others, in deriveLink
  after removing every \<^verbatim>\<open>link/\<close> from the key. Provided the stored keys are pairwise
  distinct and none of them is the prefix, up to the first separator, of a stored key
  with a separator, the loop returns a mapping in which each stored key without a
  separator is at top level with its value, and each stored key with a separator is
  split at its first separator, its value stored under the remainder in a nested
  mapping under the prefix. The mapping has no other top-level keys and the nested
  mappings no other keys.
\<close>

theorem annotation_loop_one_level:
  assumes "stored = kept_items keep rename its"
    and "distinct (map fst stored)"
    and "\<forall>k \<in> fst ` set stored. \<forall>k' \<in> fst ` set stored. has_sep k' \<longrightarrow> k \<noteq> key_head k'"
  shows "\<exists>ann. annotation_loop keep rename its [] = Inr ann
          \<and> set (dict_keys ann)
              = {k \<in> fst ` set stored. \<not> has_sep k} \<union> key_head ` {k \<in> fst ` set stored. has_sep k}
          \<and> (\<forall>(k, v) \<in> set stored.
                if has_sep k
                then \<exists>d. dict_get ann (key_head k) = Some (PDict d)
                       \<and> dict_get d (key_tail k) = Some v
                       \<and> set (dict_keys d)
                           = key_tail ` {k' \<in> fst ` set stored. has_sep k' \<and> key_head k' = key_head k}
                else dict_get ann k = Some v)"
proof -
  have nc: "no_clash stored"
    using assms(3) by (rule no_clashI)
  obtain ann where l: "annotation_loop (\<lambda>k. True) (\<lambda>k. k) stored [] = Inr ann"
    and g: "grouped stored ann"
    using store_all_grouped [OF assms(2) nc] by blast
  have r: "annotation_loop keep rename its [] = Inr ann"
    using l by (simp add: loop_kept [of keep rename its] assms(1))
  have ks: "set (dict_keys ann)
              = {k \<in> fst ` set stored. \<not> has_sep k} \<union> key_head ` {k \<in> fst ` set stored. has_sep k}"
    using grouped_keys [OF g] by (simp add: plain_keys_def head_keys_def)
  have es: "\<forall>(k, v) \<in> set stored.
                if has_sep k
                then \<exists>d. dict_get ann (key_head k) = Some (PDict d)
                       \<and> dict_get d (key_tail k) = Some v
                       \<and> set (dict_keys d)
                           = key_tail ` {k' \<in> fst ` set stored. has_sep k' \<and> key_head k' = key_head k}
                else dict_get ann k = Some v"
  proof (intro ballI, clarify)
    fix k v assume kv: "(k, v) \<in> set stored"
    show "if has_sep k
          then \<exists>d. dict_get ann (key_head k) = Some (PDict d)
                 \<and> dict_get d (key_tail k) = Some v
                 \<and> set (dict_keys d)
                     = key_tail ` {k' \<in> fst ` set stored. has_sep k' \<and> key_head k' = key_head k}
          else dict_get ann k = Some v"
    proof (cases "has_sep k")
      case True
      with grouped_sep [OF g assms(2) kv] show ?thesis by simp
    next
      case False
      with grouped_plain [OF g assms(2) nc kv] show ?thesis by simp
    qed
  qed
  from conjI [OF r conjI [OF ks es]] show ?thesis
    by (rule exI)
qed

lemma example_grouping:
  "group_annotations [''skip'']
     [(''a/b'', PInt 1), (''skip'', PInt 4), (''a/c'', PInt 2), (''x'', PInt 3)]
   = Inr [(''a'', PDict [(''b'', PInt 1), (''c'', PInt 2)]), (''x'', PInt 3)]"
  by (simp add: group_annotations_def store_annotation_def has_sep_def key_head_def
      key_tail_def dict_get_def dict_keys_def)

theorem annotation_loop_one_level_witness:
  "kept_items (\<lambda>k. k \<notin> set [''skip'']) (\<lambda>k. k)
     [(''a/b'', PInt 1), (''skip'', PInt 4), (''a/c'', PInt 2), (''x'', PInt 3)]
     = [(''a/b'', PInt 1), (''a/c'', PInt 2), (''x'', PInt 3)]
   \<and> distinct (map fst [(''a/b'', PInt 1), (''a/c'', PInt 2), (''x'', PInt 3)])
   \<and> group_annotations [''skip'']
        [(''a/b'', PInt 1), (''skip'', PInt 4), (''a/c'', PInt 2), (''x'', PInt 3)]
      = Inr [(''a'', PDict [(''b'', PInt 1), (''c'', PInt 2)]), (''x'', PInt 3)]
   \<and> set (dict_keys [(''a'', PDict [(''b'', PInt 1), (''c'', PInt 2)]), (''x'', PInt 3)])
      = {''a'', ''x''}"
proof -
  let ?its = "[(''a/b'', PInt 1), (''skip'', PInt 4), (''a/c'', PInt 2), (''x'', PInt 3)]"
  let ?stored = "[(''a/b'', PInt 1), (''a/c'', PInt 2), (''x'', PInt 3)]"
  have s: "?stored = kept_items (\<lambda>k. k \<notin> set [''skip'']) (\<lambda>k. k) ?its"
    by (simp add: kept_items_def)
  have d: "distinct (map fst ?stored)"
    by simp
  have c: "\<forall>k \<in> fst ` set ?stored. \<forall>k' \<in> fst ` set ?stored. has_sep k' \<longrightarrow> k \<noteq> key_head k'"
    by (simp add: has_sep_def key_head_def)
  obtain ann where a: "annotation_loop (\<lambda>k. k \<notin> set [''skip'']) (\<lambda>k. k) ?its [] = Inr ann"
    and k: "set (dict_keys ann)
              = {k \<in> fst ` set ?stored. \<not> has_sep k} \<union> key_head ` {k \<in> fst ` set ?stored. has_sep k}"
    using annotation_loop_one_level [OF s d c] by blast
  from a have "ann = [(''a'', PDict [(''b'', PInt 1), (''c'', PInt 2)]), (''x'', PInt 3)]"
    using example_grouping by (simp add: group_annotations_def)
  with s d example_grouping show ?thesis
    by (simp add: dict_keys_def)
qed

text \<open>
  Without the proviso the grouping of C5 fails. When a key without a separator, stored
  later, is the prefix of an earlier key, it replaces the nested mapping, and the value
  of the earlier key is no longer in the result; stored earlier, it makes the assignment
  into the nested mapping raise TypeError. In deriveLink a key \<^verbatim>\<open>link/foo\<close> is stored at top
  level under \<^verbatim>\<open>foo\<close>, not in a nested mapping under \<^verbatim>\<open>link\<close>.
\<close>

theorem group_annotations_clash_counterexample:
  "group_annotations [] [(''a/b'', PInt 1), (''a'', PInt 2)] = Inr [(''a'', PInt 2)]
   \<and> group_annotations [] [(''a'', PInt 2), (''a/b'', PInt 1)] = Inl TypeError
   \<and> link_annotations example_host
        (Obj ''l'' ''link'' [(''link/foo'', PInt 1)] (matrix_world example_base) (1, 1, 1)
           ''none'' None [])
      = Inr [(''foo'', PInt 1)]"
  by (simp add: group_annotations_def link_annotations_def store_annotation_def has_sep_def
      key_head_def key_tail_def dict_get_def dict_keys_def startswith_def example_host_def)

subsection \<open>deriveInertial\<close>





text \<open>An object with the properties \<^verbatim>\<open>frame/offset\<close> and \<^verbatim>\<open>frame\<close>, in this order, and
  neither \<^verbatim>\<open>mass\<close> nor \<^verbatim>\<open>inertia\<close>: the later key replaces the nested mapping, and an
  Inertial with the defaults is returned.\<close>

lemma example_replaced_derived:
  "deriveInertial example_host
     (Obj ''odd'' ''inertial'' [(''frame/offset'', PFloat 1), (''frame'', PStr ''body'')]
        (matrix_world example_arm) (0, 0, 0) ''none'' None [])
   = Inr (Inertial (Some (PFloat 0)) None
            (deriveObjectPose example_host
               (Obj ''odd'' ''inertial'' [(''frame/offset'', PFloat 1), (''frame'', PStr ''body'')]
                  (matrix_world example_arm) (0, 0, 0) ''none'' None []) None)
            [(''frame'', PStr ''body'')])"
  by (simp add: deriveInertial_def inertial_inertia_def group_annotations_def
      store_annotation_def has_sep_def key_head_def key_tail_def dict_get_def dict_keys_def
      kwargs_clash_def)



subsection \<open>deriveAnnotation: deepen\_dict\<close>

text \<open>
  C6. The claim: when two distinct keys share the prefix before the first separator
  (\<^verbatim>\<open>"p/a"\<close> and \<^verbatim>\<open>"p/b"\<close>), deepen\_dict reuses the nested mapping under the prefix, so
  both entries are in the result. The code assigns a fresh nested mapping to
  \<^verbatim>\<open>out[prefix]\<close> at every such key: on \<^verbatim>\<open>{"p/a": 1, "p/b": 2}\<close> it returns
  \<^verbatim>\<open>{"p": {"b": 2}}\<close>, and the entry of \<^verbatim>\<open>"p/a"\<close> is lost. The annotation loop of the
  other derive functions keeps both entries on the same input.
\<close>

theorem deepen_dict_overwrites_shared_prefix:
  "deepen_dict [(''p/a'', PInt 1), (''p/b'', PInt 2)] = [(''p'', PDict [(''b'', PInt 2)])]
   \<and> group_annotations [] [(''p/a'', PInt 1), (''p/b'', PInt 2)]
       = Inr [(''p'', PDict [(''a'', PInt 1), (''b'', PInt 2)])]"
  by (simp add: deepen_dict_def group_annotations_def store_annotation_def has_sep_def
      key_head_def key_tail_def dict_get_def dict_keys_def)

end
